theory Spec2Isabelle
  imports Main "HOL-Library.Multiset" "HOL-Library.Char_ord" "HOL-Library.List_Lexorder"
begin

section \<open>JavaScript strings and truthiness\<close>

text \<open>
  A JavaScript string is a sequence of UTF-16 code units and \<^verbatim>\<open>length\<close> counts them.
  The model writes a string as a \<^typ>\<open>string\<close>, one \<^typ>\<open>char\<close> per code unit, and so
  covers the code units below 256 (ASCII and Latin-1).
\<close>

text \<open>
  \<^verbatim>\<open>String.prototype.trim\<close> removes white space and line terminators from both ends.
  Below 256 these are TAB, LF, VT, FF, CR, SP and NBSP.
\<close>

definition isWhiteSpace :: "char \<Rightarrow> bool" where
  "isWhiteSpace c =
     (c \<in> set [CHR 0x09, CHR 0x0A, CHR 0x0B, CHR 0x0C, CHR 0x0D, CHR 0x20, CHR 0xA0])"

definition trim :: "string \<Rightarrow> string" where
  "trim s = rev (dropWhile isWhiteSpace (rev (dropWhile isWhiteSpace s)))"

text \<open>
  \<^verbatim>\<open>String.prototype.toLowerCase\<close>, code unit by code unit: A to Z, and the Latin-1
  capitals 0xC0 to 0xDE without the multiplication sign 0xD7, move up by 32.
\<close>

definition toLowerChar :: "char \<Rightarrow> char" where
  "toLowerChar c =
     (let n = (of_char c :: nat) in
      if (65 \<le> n \<and> n \<le> 90) \<or> (192 \<le> n \<and> n \<le> 222 \<and> n \<noteq> 215)
      then char_of (n + 32) else c)"

definition toLowerCase :: "string \<Rightarrow> string" where
  "toLowerCase s = map toLowerChar s"

text \<open>
  The regular expression \<^verbatim>\<open>/^(none|n\/a|na|false)$/i\<close> has neither the \<^verbatim>\<open>u\<close> nor the
  \<^verbatim>\<open>m\<close> flag: \<^verbatim>\<open>^\<close> and \<^verbatim>\<open>$\<close> match only at the two ends of the input, and a
  character is compared after canonicalisation, which never maps a code unit from 128 on
  to one below 128. The alternatives are ASCII, so \<^verbatim>\<open>test\<close> holds exactly when the
  input, with A to Z folded to a to z, is one of the four words.
\<close>

definition foldAscii :: "char \<Rightarrow> char" where
  "foldAscii c =
     (let n = (of_char c :: nat) in if 65 \<le> n \<and> n \<le> 90 then char_of (n + 32) else c)"

definition sentinelTest :: "string \<Rightarrow> bool" where
  "sentinelTest x = (map foldAscii x \<in> set [''none'', ''n/a'', ''na'', ''false''])"

text \<open>
  \<^verbatim>\<open>String.prototype.includes\<close>: the argument occurs as a contiguous run of the
  receiver.
\<close>

fun str_includes :: "string \<Rightarrow> string \<Rightarrow> bool" where
  "str_includes [] sub = (sub = [])"
| "str_includes (c # cs) sub = (take (length sub) (c # cs) = sub \<or> str_includes cs sub)"

text \<open>
  An optional field is an \<open>option\<close>: \<open>None\<close> is \<^verbatim>\<open>undefined\<close>. A string is truthy
  when it is present and not empty, a boolean when it is present and true
  (\<^verbatim>\<open>!!x\<close>).
\<close>

definition truthy :: "string option \<Rightarrow> bool" where
  "truthy x = (case x of None \<Rightarrow> False | Some s \<Rightarrow> s \<noteq> [])"

definition truthy_bool :: "bool option \<Rightarrow> bool" where
  "truthy_bool x = (case x of None \<Rightarrow> False | Some b \<Rightarrow> b)"

section \<open>Data model\<close>

text \<open>
  The declarations of \<^verbatim>\<open>Store\<close>, \<^verbatim>\<open>Folio\<close>, \<^verbatim>\<open>Collection\<close> and \<^verbatim>\<open>User\<close> are in
  \<^verbatim>\<open>types.ts\<close>; the records below list the fields that \<^verbatim>\<open>App.tsx\<close> reads and writes.
  A field is optional where a path of \<^verbatim>\<open>App.tsx\<close> that builds a store can leave it
  unset and the readers guard it (\<^verbatim>\<open>!s.website\<close>, \<^verbatim>\<open>!!store.isArchived\<close>,
  \<^verbatim>\<open>!!store.priceRange\<close>). An object used as a dictionary
  (\<^verbatim>\<open>Record<string, string[]>\<close>) is the list of its own entries, read with
  \<^const>\<open>map_of\<close>.
\<close>

record contributor =
  by_userId :: string
  by_userName :: string

record store =
  store_id :: string
  collectionId :: string
  store_name :: string
  description :: "string option"
  website :: "string option"
  country :: string
  city :: string
  tags :: "string list"
  priceRange :: "string option"
  onSale :: "bool option"
  isArchived :: "bool option"
  rating :: int
  sustainability :: string
  customFields :: "(string \<times> string list) list"
  addedBy :: contributor
  favoritedBy :: "string list"
  privateNotes :: "(string \<times> string) list"
  imageUrl :: "string option"

record folio =
  folio_id :: string
  folio_name :: string
  themeId :: string
  storeIds :: "string list"
  folio_createdAt :: string

record collection =
  coll_id :: string
  ownerId :: string
  coll_name :: string
  template :: string
  stores :: "store list"
  folios :: "folio list option"
  coll_createdAt :: string

record user =
  userId :: string
  firstName :: string
  lastName :: string

section \<open>Enrichment merge\<close>

text \<open>
  \<^verbatim>\<open>handleEnrichComplete\<close> (App.tsx, lines 248 to 275). A handler is modelled by the
  snapshot it hands to \<^verbatim>\<open>saveCollection\<close>; \<open>None\<close> is the early return that saves
  nothing. \<^verbatim>\<open>formatDescription\<close> is imported from \<^verbatim>\<open>utils/textFormatter\<close> and is a
  parameter.
\<close>

definition websiteEmpty :: "store \<Rightarrow> bool" where
  "websiteEmpty s =
     (case website s of None \<Rightarrow> True | Some w \<Rightarrow> w = [] \<or> sentinelTest (trim w))"

definition descEmpty :: "store \<Rightarrow> bool" where
  "descEmpty s =
     (case description s of None \<Rightarrow> True
      | Some d \<Rightarrow> d = [] \<or> length d < 10 \<or> sentinelTest (trim d))"

definition mergeEnriched :: "(string \<Rightarrow> string) \<Rightarrow> store \<Rightarrow> store \<Rightarrow> store" where
  "mergeEnriched formatDescription s enriched =
     (let updated = s;
          updated = (if truthy (website enriched) \<and> websiteEmpty s
                     then updated\<lparr>website := website enriched\<rparr> else updated);
          updated = (if truthy (description enriched) \<and> descEmpty s
                     then updated\<lparr>description :=
                            map_option formatDescription (description enriched)\<rparr>
                     else updated)
      in updated)"

definition enrichStore :: "(string \<Rightarrow> string) \<Rightarrow> store list \<Rightarrow> store \<Rightarrow> store" where
  "enrichStore formatDescription enrichedStores s =
     (case find (\<lambda>e. store_id e = store_id s) enrichedStores of
        None \<Rightarrow> s
      | Some enriched \<Rightarrow> mergeEnriched formatDescription s enriched)"

definition handleEnrichComplete ::
  "(string \<Rightarrow> string) \<Rightarrow> collection option \<Rightarrow> store list \<Rightarrow> collection option" where
  "handleEnrichComplete formatDescription activeCollection enrichedStores =
     (case activeCollection of
        None \<Rightarrow> None
      | Some c \<Rightarrow>
          Some (c\<lparr>stores := map (enrichStore formatDescription enrichedStores) (stores c)\<rparr>))"

section \<open>Adding and importing stores\<close>

text \<open>
  \<^verbatim>\<open>handleAddStore\<close> (App.tsx, lines 234 to 239) takes a \<^verbatim>\<open>Partial<Store>\<close> and casts
  the object it builds to \<^verbatim>\<open>Store\<close>. The cast asserts the one required field that the
  handler does not set itself, \<^verbatim>\<open>store_name\<close>; every other field of the payload is
  optional. The fields \<^verbatim>\<open>id\<close>, \<^verbatim>\<open>collectionId\<close>, \<^verbatim>\<open>addedBy\<close>, \<^verbatim>\<open>favoritedBy\<close> and
  \<^verbatim>\<open>privateNotes\<close> of the payload are overwritten without being read and are left out.
  \<^verbatim>\<open>crypto.randomUUID()\<close> is the argument \<open>uuid\<close>.
\<close>

record partialStore =
  p_store_name :: string
  p_description :: "string option"
  p_website :: "string option"
  p_country :: "string option"
  p_city :: "string option"
  p_tags :: "string list option"
  p_priceRange :: "string option"
  p_onSale :: "bool option"
  p_isArchived :: "bool option"
  p_rating :: "int option"
  p_sustainability :: "string option"
  p_customFields :: "(string \<times> string list) list option"
  p_imageUrl :: "string option"

definition userName :: "user \<Rightarrow> string" where
  "userName u = trim (firstName u @ '' '' @ lastName u)"

definition newStore :: "collection \<Rightarrow> user \<Rightarrow> string \<Rightarrow> partialStore \<Rightarrow> store" where
  "newStore activeCollection u uuid storeData =
     \<lparr> store_id = uuid,
       collectionId = coll_id activeCollection,
       store_name = p_store_name storeData,
       description = Some [],
       website = p_website storeData,
       country = [],
       city = [],
       tags = (case p_tags storeData of None \<Rightarrow> [] | Some ts \<Rightarrow> ts),
       priceRange = Some (if truthy (p_priceRange storeData)
                          then the (p_priceRange storeData) else []),
       onSale = p_onSale storeData,
       isArchived = p_isArchived storeData,
       rating = 0,
       sustainability = [],
       customFields = [],
       addedBy = \<lparr> by_userId = userId u, by_userName = userName u \<rparr>,
       favoritedBy = [],
       privateNotes = [],
       imageUrl = p_imageUrl storeData \<rparr>"

definition handleAddStore ::
  "collection option \<Rightarrow> user option \<Rightarrow> string \<Rightarrow> partialStore \<Rightarrow> collection option" where
  "handleAddStore activeCollection usr uuid storeData =
     (case activeCollection of
        None \<Rightarrow> None
      | Some c \<Rightarrow>
          (case usr of
             None \<Rightarrow> None
           | Some u \<Rightarrow> Some (c\<lparr>stores := stores c @ [newStore c u uuid storeData]\<rparr>)))"

text \<open>
  The \<^verbatim>\<open>onComplete\<close> callback of \<^verbatim>\<open>ImportModal\<close> (App.tsx, line 421). Its stores come
  from the CSV parser: \<^verbatim>\<open>s.tags.map\<close> needs the tags, \<^verbatim>\<open>s.customFields || {}\<close> guards
  the custom fields. \<^verbatim>\<open>getPriceBucket\<close> is imported from \<^verbatim>\<open>utils/priceMapper\<close> and is
  a parameter; \<open>None\<close> is a result that is not a string.
  \<^verbatim>\<open>LIMITS.MAX_STORES_PER_COLLECTION\<close> is the parameter \<open>maxStores\<close>, and the \<open>i\<close>-th
  call of \<^verbatim>\<open>crypto.randomUUID()\<close> returns \<open>uuid i\<close>.
\<close>

record importedStore =
  i_store_name :: string
  i_description :: "string option"
  i_website :: "string option"
  i_country :: string
  i_city :: string
  i_tags :: "string list"
  i_priceRange :: string
  i_onSale :: "bool option"
  i_isArchived :: "bool option"
  i_rating :: int
  i_sustainability :: string
  i_customFields :: "(string \<times> string list) list option"
  i_imageUrl :: "string option"

datatype importMode = Import | Append

definition fullStore ::
  "(string \<Rightarrow> string option) \<Rightarrow> user \<Rightarrow> string \<Rightarrow> string \<Rightarrow> importedStore \<Rightarrow> store" where
  "fullStore getPriceBucket u cid uuid s =
     \<lparr> store_id = uuid,
       collectionId = cid,
       store_name = i_store_name s,
       description = i_description s,
       website = i_website s,
       country = i_country s,
       city = i_city s,
       tags = map (\<lambda>t. trim (toLowerCase t)) (i_tags s),
       priceRange = getPriceBucket (i_priceRange s),
       onSale = i_onSale s,
       isArchived = i_isArchived s,
       rating = i_rating s,
       sustainability = i_sustainability s,
       customFields = (case i_customFields s of None \<Rightarrow> [] | Some cf \<Rightarrow> cf),
       addedBy = \<lparr> by_userId = userId u, by_userName = userName u \<rparr>,
       favoritedBy = [],
       privateNotes = [],
       imageUrl = i_imageUrl s \<rparr>"

definition importComplete ::
  "(string \<Rightarrow> string option) \<Rightarrow> nat \<Rightarrow> (nat \<Rightarrow> string) \<Rightarrow> user option \<Rightarrow> collection list \<Rightarrow>
   collection \<Rightarrow> importMode \<Rightarrow> importedStore list \<Rightarrow> string \<Rightarrow> collection option" where
  "importComplete getPriceBucket maxStores uuid usr collections activeCollection mode
       importedStores cid =
     (case usr of
        None \<Rightarrow> None
      | Some u \<Rightarrow>
          (let targetColl = (case find (\<lambda>c. coll_id c = cid) collections of
                               Some c \<Rightarrow> c | None \<Rightarrow> activeCollection);
               fullStores = map (\<lambda>(i, s). fullStore getPriceBucket u cid (uuid i) s)
                                (enumerate 0 importedStores);
               baseStores = (if mode = Import then [] else stores targetColl)
           in Some (targetColl\<lparr>stores := take maxStores (baseStores @ fullStores)\<rparr>)))"

section \<open>Deleting stores\<close>

text \<open>
  \<^verbatim>\<open>handleDeleteStore\<close> (lines 283 to 288) and \<^verbatim>\<open>handleBulkDelete\<close> (lines 345 to 352).
  \<^verbatim>\<open>activeCollection.folios || []\<close> reads an unset folio list as the empty one.
\<close>

definition handleDeleteStore :: "collection option \<Rightarrow> string \<Rightarrow> collection option" where
  "handleDeleteStore activeCollection storeId =
     (case activeCollection of
        None \<Rightarrow> None
      | Some c \<Rightarrow> Some (c\<lparr>stores := filter (\<lambda>s. store_id s \<noteq> storeId) (stores c)\<rparr>))"

definition foliosOrEmpty :: "collection \<Rightarrow> folio list" where
  "foliosOrEmpty c = (case folios c of None \<Rightarrow> [] | Some fs \<Rightarrow> fs)"

definition handleBulkDelete :: "collection option \<Rightarrow> string set \<Rightarrow> collection option" where
  "handleBulkDelete activeCollection selectedStoreIds =
     (case activeCollection of
        None \<Rightarrow> None
      | Some c \<Rightarrow>
          (let updatedStores = filter (\<lambda>s. store_id s \<notin> selectedStoreIds) (stores c);
               updatedFolios =
                 map (\<lambda>f. f\<lparr>storeIds := filter (\<lambda>i. i \<notin> selectedStoreIds) (storeIds f)\<rparr>)
                     (foliosOrEmpty c)
           in Some (c\<lparr>stores := updatedStores, folios := Some updatedFolios\<rparr>)))"

section \<open>Facet filter\<close>

text \<open>
  \<^verbatim>\<open>filteredStores\<close> (App.tsx, lines 354 to 367). The localisation function \<^verbatim>\<open>t\<close>,
  \<^verbatim>\<open>compareStoreNames\<close> and \<^verbatim>\<open>getPriceBucket\<close> are imported and are parameters. The
  result is \<open>Inr\<close> of the list the memo returns, or \<open>Inl\<close> of the exception that leaves it.
\<close>

record storeFilters =
  f_search :: string
  f_tags :: "string list"
  f_onSale :: bool
  f_priceRanges :: "string list"
  f_customFields :: "(string \<times> string list) list"

definition matchesSearch :: "(string \<Rightarrow> string) \<Rightarrow> string \<Rightarrow> store \<Rightarrow> bool" where
  "matchesSearch t searchLower s =
     (searchLower = [] \<or>
      (str_includes (toLowerCase (store_name s)) searchLower \<or>
       str_includes (toLowerCase (t (city s))) searchLower \<or>
       str_includes (toLowerCase (t (country s))) searchLower \<or>
       list_ex (\<lambda>tag. str_includes (toLowerCase tag) searchLower) (tags s)))"

definition matchesArchive :: "bool \<Rightarrow> store \<Rightarrow> bool" where
  "matchesArchive showArchived s =
     (if showArchived then truthy_bool (isArchived s) else \<not> truthy_bool (isArchived s))"

definition matchesTags :: "string list \<Rightarrow> store \<Rightarrow> bool" where
  "matchesTags selectedTags s =
     (selectedTags = [] \<or> list_all (\<lambda>tag. tag \<in> set (tags s)) selectedTags)"

definition matchesSale :: "bool \<Rightarrow> store \<Rightarrow> bool" where
  "matchesSale sale s = (\<not> sale \<or> truthy_bool (onSale s))"

definition matchesPrice :: "(string \<Rightarrow> string option) \<Rightarrow> string list \<Rightarrow> store \<Rightarrow> bool" where
  "matchesPrice getPriceBucket ranges s =
     (ranges = [] \<or>
      (truthy (priceRange s) \<and>
       (case getPriceBucket (the (priceRange s)) of
          None \<Rightarrow> False
        | Some bucket \<Rightarrow> bucket \<in> set ranges)))"

text \<open>
  The custom-fields clause reads \<^verbatim>\<open>store.customFields[field] || []\<close>. A property read
  follows the prototype chain, so for a field that is not an own key of the store's
  custom fields and is a member of \<^verbatim>\<open>Object.prototype\<close> the read yields that member, a
  function (for \<^verbatim>\<open>__proto__\<close> the prototype object). The member is truthy, so
  \<^verbatim>\<open>|| []\<close> keeps it, and it has no \<^verbatim>\<open>includes\<close>: the first call of the callback of
  \<^verbatim>\<open>options.some\<close> throws a \<^verbatim>\<open>TypeError\<close>. The clause reads the values only after the
  guard \<^verbatim>\<open>options.length === 0\<close> has returned for an empty option list.
\<close>

datatype error = TypeError

datatype propertyValue = Strings "string list" | Inherited

definition objectPrototypeNames :: "string list" where
  "objectPrototypeNames =
     [''constructor'', ''hasOwnProperty'', ''isPrototypeOf'', ''propertyIsEnumerable'',
      ''toLocaleString'', ''toString'', ''valueOf'', ''__proto__'', ''__defineGetter__'',
      ''__defineSetter__'', ''__lookupGetter__'', ''__lookupSetter__'']"

definition storeValues :: "store \<Rightarrow> string \<Rightarrow> propertyValue" where
  "storeValues s field =
     (case map_of (customFields s) field of
        Some vs \<Rightarrow> Strings vs
      | None \<Rightarrow> if field \<in> set objectPrototypeNames then Inherited else Strings [])"

definition someIncludes :: "string list \<Rightarrow> propertyValue \<Rightarrow> error + bool" where
  "someIncludes options v =
     (case v of
        Strings vs \<Rightarrow> Inr (list_ex (\<lambda>opt. opt \<in> set vs) options)
      | Inherited \<Rightarrow> if options = [] then Inr False else Inl TypeError)"

text \<open>
  \<^verbatim>\<open>Object.entries(customFields).every(...)\<close> visits the entries in order and stops at
  the first entry whose callback returns false or throws.
\<close>

fun matchesCustomFields :: "(string \<times> string list) list \<Rightarrow> store \<Rightarrow> error + bool" where
  "matchesCustomFields [] s = Inr True"
| "matchesCustomFields ((field, selectedOptions) # entries) s =
     (if selectedOptions = [] then matchesCustomFields entries s
      else (case someIncludes selectedOptions (storeValues s field) of
              Inl e \<Rightarrow> Inl e
            | Inr b \<Rightarrow> if b then matchesCustomFields entries s else Inr False))"

text \<open>
  The callback of \<^verbatim>\<open>filter\<close> computes the six clauses one after the other, each in a
  \<^verbatim>\<open>const\<close> of its own, before it combines them: the custom-fields clause is evaluated
  for every store, whatever the other clauses are, and an exception it throws leaves the
  callback.
\<close>

definition matchesFilters ::
  "(string \<Rightarrow> string) \<Rightarrow> (string \<Rightarrow> string option) \<Rightarrow> storeFilters \<Rightarrow> bool \<Rightarrow> store \<Rightarrow>
   error + bool" where
  "matchesFilters t getPriceBucket filters showArchived s =
     (let search = matchesSearch t (toLowerCase (trim (f_search filters))) s;
          archive = matchesArchive showArchived s;
          tgs = matchesTags (f_tags filters) s;
          sale = matchesSale (f_onSale filters) s;
          price = matchesPrice getPriceBucket (f_priceRanges filters) s
      in case matchesCustomFields (f_customFields filters) s of
           Inl e \<Rightarrow> Inl e
         | Inr custom \<Rightarrow> Inr (search \<and> archive \<and> tgs \<and> sale \<and> price \<and> custom))"

text \<open>
  \<^verbatim>\<open>Array.prototype.filter\<close> calls its callback on the elements in order; an exception
  of the callback ends the whole call.
\<close>

fun array_filter :: "('a \<Rightarrow> error + bool) \<Rightarrow> 'a list \<Rightarrow> error + 'a list" where
  "array_filter p [] = Inr []"
| "array_filter p (x # xs) =
     (case p x of
        Inl e \<Rightarrow> Inl e
      | Inr b \<Rightarrow>
          (case array_filter p xs of
             Inl e \<Rightarrow> Inl e
           | Inr ys \<Rightarrow> Inr (if b then x # ys else ys)))"

text \<open>
  \<^verbatim>\<open>Array.prototype.sort\<close> with a comparison function is stable, and for a consistent
  comparison function its result is the one stable sorted arrangement; insertion from
  the right computes it. An element goes before the first element that it does not
  compare greater than.
\<close>

fun insertBy :: "('a \<Rightarrow> 'a \<Rightarrow> int) \<Rightarrow> 'a \<Rightarrow> 'a list \<Rightarrow> 'a list" where
  "insertBy cmp x [] = [x]"
| "insertBy cmp x (y # ys) = (if cmp x y \<le> 0 then x # y # ys else y # insertBy cmp x ys)"

definition array_sort :: "('a \<Rightarrow> 'a \<Rightarrow> int) \<Rightarrow> 'a list \<Rightarrow> 'a list" where
  "array_sort cmp xs = foldr (insertBy cmp) xs []"

definition filteredStores ::
  "(string \<Rightarrow> string) \<Rightarrow> (string \<Rightarrow> string \<Rightarrow> int) \<Rightarrow> (string \<Rightarrow> string option) \<Rightarrow>
   collection option \<Rightarrow> user option \<Rightarrow> storeFilters \<Rightarrow> bool \<Rightarrow> error + store list" where
  "filteredStores t compareStoreNames getPriceBucket activeCollection usr filters showArchived =
     (case activeCollection of
        None \<Rightarrow> Inr []
      | Some c \<Rightarrow>
          (case usr of
             None \<Rightarrow> Inr []
           | Some u \<Rightarrow>
               (case array_filter (matchesFilters t getPriceBucket filters showArchived)
                       (stores c) of
                  Inl e \<Rightarrow> Inl e
                | Inr matching \<Rightarrow>
                    Inr (array_sort (\<lambda>a b. compareStoreNames (store_name a) (store_name b))
                           matching))))"

section \<open>The imported helpers, as the specification describes them\<close>

text \<open>
  The functions below stand in for the imported helpers wherever a theorem is
  instantiated at a concrete input. The theorems themselves hold for every helper.
\<close>

text \<open>
  Modelled from the spec: the white-space normalisation shared by \<^verbatim>\<open>formatDescription\<close>
  and \<^verbatim>\<open>normalizeStoreName\<close>; the module \<^verbatim>\<open>utils/textFormatter\<close> is missing. Section
  4.1: inner white space is collapsed; a run of white space becomes one space.
\<close>

fun collapseSpaces :: "string \<Rightarrow> string" where
  "collapseSpaces [] = []"
| "collapseSpaces [c] = [if isWhiteSpace c then CHR '' '' else c]"
| "collapseSpaces (c # d # cs) =
     (if isWhiteSpace c \<and> isWhiteSpace d then collapseSpaces (d # cs)
      else (if isWhiteSpace c then CHR '' '' else c) # collapseSpaces (d # cs))"

text \<open>
  Modelled from the spec: \<^verbatim>\<open>formatDescription\<close>; the module \<^verbatim>\<open>utils/textFormatter\<close> is
  missing. Section 4.1: it normalises white space without truncation and is idempotent.
\<close>

definition formatDescription_spec :: "string \<Rightarrow> string" where
  "formatDescription_spec text = collapseSpaces (trim text)"

text \<open>
  Modelled from the spec: \<^verbatim>\<open>normalizeStoreName\<close>; the module \<^verbatim>\<open>utils/textFormatter\<close> is
  missing. Section 4.1: the key of a name is the name trimmed, with inner white space
  collapsed, compared without regard to case.
\<close>

definition normalizeStoreName_spec :: "string \<Rightarrow> string" where
  "normalizeStoreName_spec s = toLowerCase (collapseSpaces (trim s))"

text \<open>
  Modelled from the spec: \<^verbatim>\<open>compareStoreNames\<close>; the module \<^verbatim>\<open>utils/textFormatter\<close> is
  missing. Section 4.1: a total order consistent with the keys, names with equal keys
  being ordered by comparing the raw strings (code unit by code unit, a proper prefix
  first).
\<close>

definition compareStoreNames_spec :: "string \<Rightarrow> string \<Rightarrow> int" where
  "compareStoreNames_spec a b =
     (let ka = normalizeStoreName_spec a; kb = normalizeStoreName_spec b in
      if ka < kb then - 1 else if kb < ka then 1
      else if a < b then - 1 else if b < a then 1 else 0)"

text \<open>
  Modelled from the spec: \<^verbatim>\<open>getPriceBucket\<close>; the module \<^verbatim>\<open>utils/priceMapper\<close> is
  missing. Section 4.2: one to four dollar signs are the buckets low, mid, high and
  ultra, a bucket id classifies to itself, and any other input is unclassified.
\<close>

definition getPriceBucket_spec :: "string \<Rightarrow> string option" where
  "getPriceBucket_spec raw =
     (let p = trim raw in
      if p = ''$'' \<or> p = ''low'' then Some ''low''
      else if p = ''$$'' \<or> p = ''mid'' then Some ''mid''
      else if p = ''$$$'' \<or> p = ''high'' then Some ''high''
      else if p = ''$$$$'' \<or> p = ''ultra'' then Some ''ultra''
      else None)"

section \<open>The sentinel test in the words of the specification\<close>

text \<open>
  Section 4.5 of the specification calls a value a sentinel non-value when, after
  trimming, it matches one of none, n/a, na and false case-insensitively. The
  definitions below say this letter by letter: the trimmed value has the length of the
  word, and each of its code units is the code unit of the word or the ASCII capital of
  it. They are compared with \<^const>\<open>sentinelTest\<close>, the regular expression of the
  source.
\<close>

definition capitalOf :: "char \<Rightarrow> char \<Rightarrow> bool" where
  "capitalOf c d =
     (65 \<le> (of_char c :: nat) \<and> (of_char c :: nat) \<le> 90 \<and> (of_char c :: nat) + 32 = of_char d)"

definition equalIgnoringCase :: "string \<Rightarrow> string \<Rightarrow> bool" where
  "equalIgnoringCase x word = list_all2 (\<lambda>c d. c = d \<or> capitalOf c d) x word"

definition sentinel_spec :: "string \<Rightarrow> bool" where
  "sentinel_spec x =
     list_ex (equalIgnoringCase (trim x)) [''none'', ''n/a'', ''na'', ''false'']"

section \<open>Example data\<close>

text \<open>
  Fixtures for the concrete instances: a store with a given id and name and nothing else
  filled in, a collection around a store list, a folio, a user, the filter state with no
  facet set (the value \<^verbatim>\<open>getInitialFiltersFromUrl\<close> falls back to), and the payloads of
  the add form and of the import.
\<close>

definition exampleStore :: "string \<Rightarrow> string \<Rightarrow> store" where
  "exampleStore sid nm =
     \<lparr> store_id = sid, collectionId = ''c1'', store_name = nm, description = Some [],
       website = None, country = [], city = [], tags = [], priceRange = Some [],
       onSale = None, isArchived = None, rating = 0, sustainability = [],
       customFields = [], addedBy = \<lparr> by_userId = ''u1'', by_userName = ''Ada Lovelace'' \<rparr>,
       favoritedBy = [], privateNotes = [], imageUrl = None \<rparr>"

definition exampleCollection :: "store list \<Rightarrow> folio list option \<Rightarrow> collection" where
  "exampleCollection ss fs =
     \<lparr> coll_id = ''c1'', ownerId = ''u1'', coll_name = ''Fashion'', template = ''Fashion'',
       stores = ss, folios = fs, coll_createdAt = ''2024-01-01T00:00:00.000Z'' \<rparr>"

definition exampleFolio :: "string \<Rightarrow> string list \<Rightarrow> folio" where
  "exampleFolio fid ids =
     \<lparr> folio_id = fid, folio_name = ''Favourites'', themeId = ''default'', storeIds = ids,
       folio_createdAt = ''2024-01-01T00:00:00.000Z'' \<rparr>"

definition emptyFilters :: storeFilters where
  "emptyFilters =
     \<lparr> f_search = [], f_tags = [], f_onSale = False, f_priceRanges = [], f_customFields = [] \<rparr>"

definition exampleUser :: user where
  "exampleUser = \<lparr> userId = ''u1'', firstName = ''Ada'', lastName = ''Lovelace'' \<rparr>"

definition examplePayload :: "string \<Rightarrow> partialStore" where
  "examplePayload nm =
     \<lparr> p_store_name = nm, p_description = None, p_website = None, p_country = None,
       p_city = None, p_tags = None, p_priceRange = None, p_onSale = None,
       p_isArchived = None, p_rating = None, p_sustainability = None,
       p_customFields = None, p_imageUrl = None \<rparr>"

definition exampleImported :: "string \<Rightarrow> importedStore" where
  "exampleImported nm =
     \<lparr> i_store_name = nm, i_description = Some ''Hand-made boots'', i_website = None,
       i_country = ''Spain'', i_city = ''Madrid'', i_tags = [], i_priceRange = ''$$$'',
       i_onSale = None, i_isArchived = None, i_rating = 4, i_sustainability = ''B Corp'',
       i_customFields = None, i_imageUrl = None \<rparr>"

section \<open>Properties of the sort\<close>

lemma mset_insertBy: "mset (insertBy cmp x xs) = add_mset x (mset xs)"
  by (induction xs) auto

lemma mset_array_sort: "mset (array_sort cmp xs) = mset xs"
  unfolding array_sort_def by (induction xs) (auto simp: mset_insertBy)

lemma set_array_sort: "set (array_sort cmp xs) = set xs"
  using mset_array_sort [of cmp xs] by (metis set_mset_mset)

lemma length_array_sort: "length (array_sort cmp xs) = length xs"
  using mset_array_sort [of cmp xs] by (metis size_mset)

lemma sorted_insertBy:
  assumes total: "\<And>a b. cmp a b \<le> 0 \<or> cmp b a \<le> 0"
      and trans: "\<And>a b c. cmp a b \<le> 0 \<Longrightarrow> cmp b c \<le> 0 \<Longrightarrow> cmp a c \<le> 0"
      and "sorted_wrt (\<lambda>a b. cmp a b \<le> 0) xs"
  shows "sorted_wrt (\<lambda>a b. cmp a b \<le> 0) (insertBy cmp x xs)"
  using assms(3)
proof (induction xs)
  case Nil then show ?case by simp
next
  case (Cons y ys)
  show ?case
  proof (cases "cmp x y \<le> 0")
    case True
    with Cons.prems trans show ?thesis by auto
  next
    case False
    then have yx: "cmp y x \<le> 0" using total by blast
    have "set (insertBy cmp x ys) = insert x (set ys)"
      using mset_insertBy [of cmp x ys] by (metis set_mset_mset set_mset_add_mset_insert)
    with False yx Cons show ?thesis by auto
  qed
qed

lemma sorted_array_sort:
  assumes total: "\<And>a b. cmp a b \<le> 0 \<or> cmp b a \<le> 0"
      and trans: "\<And>a b c. cmp a b \<le> 0 \<Longrightarrow> cmp b c \<le> 0 \<Longrightarrow> cmp a c \<le> 0"
  shows "sorted_wrt (\<lambda>a b. cmp a b \<le> 0) (array_sort cmp xs)"
  unfolding array_sort_def
  by (induction xs) (auto intro: sorted_insertBy [OF total trans])

lemma sorted_wrt_mset_unique:
  assumes "sorted_wrt R xs" and "sorted_wrt R ys" and "mset xs = mset ys"
      and anti: "\<And>a b. a \<in> set xs \<Longrightarrow> b \<in> set xs \<Longrightarrow> R a b \<Longrightarrow> R b a \<Longrightarrow> a = b"
  shows "xs = ys"
  using assms
proof (induction xs arbitrary: ys)
  case Nil then show ?case by simp
next
  case (Cons x xs)
  then obtain y ys' where ys: "ys = y # ys'" by (cases ys) auto
  have sets: "set (x # xs) = set (y # ys')"
    using Cons.prems(3) ys by (metis set_mset_mset)
  have xy: "x = y"
  proof (rule ccontr)
    assume ne: "x \<noteq> y"
    then have "y \<in> set xs" using sets by auto
    then have 1: "R x y" using Cons.prems(1) by auto
    from ne have "x \<in> set ys'" using sets by auto
    then have 2: "R y x" using Cons.prems(2) ys by auto
    have "y \<in> set (x # xs)" using sets by auto
    with 1 2 Cons.prems(4) [of x y] ne show False by auto
  qed
  have "xs = ys'"
  proof (rule Cons.IH)
    show "sorted_wrt R xs" using Cons.prems(1) by simp
    show "sorted_wrt R ys'" using Cons.prems(2) ys by simp
    show "mset xs = mset ys'" using Cons.prems(3) ys xy by simp
    show "\<And>a b. a \<in> set xs \<Longrightarrow> b \<in> set xs \<Longrightarrow> R a b \<Longrightarrow> R b a \<Longrightarrow> a = b"
      using Cons.prems(4) by auto
  qed
  with xy ys show ?case by simp
qed

lemma filter_insertBy_same:
  assumes "\<And>a b. k a = k b \<Longrightarrow> cmp a b \<le> 0"
  shows "filter (\<lambda>s. k s = k x) (insertBy cmp x xs) = x # filter (\<lambda>s. k s = k x) xs"
  using assms by (induction xs) auto

lemma filter_insertBy_other:
  assumes "k x \<noteq> n"
  shows "filter (\<lambda>s. k s = n) (insertBy cmp x xs) = filter (\<lambda>s. k s = n) xs"
  using assms by (induction xs) auto

lemma array_sort_stable:
  assumes "\<And>a b. k a = k b \<Longrightarrow> cmp a b \<le> 0"
  shows "filter (\<lambda>s. k s = n) (array_sort cmp xs) = filter (\<lambda>s. k s = n) xs"
proof (induction xs)
  case Nil
  then show ?case by (simp add: array_sort_def)
next
  case (Cons x xs)
  have step: "array_sort cmp (x # xs) = insertBy cmp x (array_sort cmp xs)"
    by (simp add: array_sort_def)
  show ?case
  proof (cases "k x = n")
    case True
    then show ?thesis
      using filter_insertBy_same [of k cmp x "array_sort cmp xs", OF assms] Cons.IH step by simp
  next
    case False
    then show ?thesis
      using filter_insertBy_other [of k x n cmp "array_sort cmp xs"] Cons.IH step by simp
  qed
qed

section \<open>Properties of the comparison the specification describes\<close>

lemma cmp_spec_trans:
  "compareStoreNames_spec a b \<le> 0 \<Longrightarrow> compareStoreNames_spec b c \<le> 0 \<Longrightarrow> compareStoreNames_spec a c \<le> 0"
  by (auto simp: compareStoreNames_spec_def Let_def split: if_splits)

lemma cmp_spec_zero: "compareStoreNames_spec a b = 0 \<longleftrightarrow> a = b"
  by (auto simp: compareStoreNames_spec_def Let_def split: if_splits)

lemma cmp_spec_sym: "(compareStoreNames_spec a b < 0) = (0 < compareStoreNames_spec b a)"
  by (auto simp: compareStoreNames_spec_def Let_def)

section \<open>Properties of the enrichment merge\<close>

lemma mergeEnriched_website:
  "website (mergeEnriched fmt s e) =
     (if truthy (website e) \<and> websiteEmpty s then website e else website s)"
  by (simp add: mergeEnriched_def Let_def)

lemma mergeEnriched_description:
  "description (mergeEnriched fmt s e) =
     (if truthy (description e) \<and> descEmpty s then map_option fmt (description e)
      else description s)"
  by (simp add: mergeEnriched_def Let_def)

lemma mergeEnriched_frame:
  "mergeEnriched fmt s e =
     s\<lparr>description := description (mergeEnriched fmt s e),
       website := website (mergeEnriched fmt s e)\<rparr>"
  by (simp add: mergeEnriched_def Let_def)

lemma foldAscii_eq:
  assumes "\<not> (65 \<le> (of_char d :: nat) \<and> (of_char d :: nat) \<le> 90)"
  shows "foldAscii c = d \<longleftrightarrow> c = d \<or> capitalOf c d"
proof (cases "65 \<le> (of_char c :: nat) \<and> (of_char c :: nat) \<le> 90")
  case True
  then have "take_bit 8 ((of_char c :: nat) + 32) = of_char c + 32"
    by (simp add: take_bit_nat_eq_self_iff)
  with True have "foldAscii c = d \<longleftrightarrow> (of_char c :: nat) + 32 = of_char d"
    by (simp add: foldAscii_def char_of_eq_iff)
  moreover from True assms have "c \<noteq> d" by auto
  ultimately show ?thesis using True by (simp add: capitalOf_def)
next
  case False
  then show ?thesis by (auto simp: foldAscii_def capitalOf_def)
qed

lemma map_foldAscii_eq:
  assumes "\<forall>d \<in> set word. \<not> (65 \<le> (of_char d :: nat) \<and> (of_char d :: nat) \<le> 90)"
  shows "map foldAscii x = word \<longleftrightarrow> equalIgnoringCase x word"
proof -
  have "map foldAscii x = word \<longleftrightarrow> list_all2 (\<lambda>c d. foldAscii c = d) x word"
    by (simp add: list_all2_conv_all_nth list_eq_iff_nth_eq)
  also have "\<dots> \<longleftrightarrow> list_all2 (\<lambda>c d. c = d \<or> capitalOf c d) x word"
    by (rule list.rel_cong) (use assms foldAscii_eq in auto)
  finally show ?thesis by (simp add: equalIgnoringCase_def)
qed

lemma sentinelTest_spec: "sentinelTest (trim x) \<longleftrightarrow> sentinel_spec x"
proof -
  have low: "\<forall>d \<in> set word. \<not> (65 \<le> (of_char d :: nat) \<and> (of_char d :: nat) \<le> 90)"
    if "word \<in> set [''none'', ''n/a'', ''na'', ''false'']" for word
    using that by auto
  have "sentinelTest (trim x) \<longleftrightarrow>
      (\<exists>word \<in> set [''none'', ''n/a'', ''na'', ''false'']. map foldAscii (trim x) = word)"
    by (auto simp: sentinelTest_def)
  also have "\<dots> \<longleftrightarrow>
      (\<exists>word \<in> set [''none'', ''n/a'', ''na'', ''false'']. equalIgnoringCase (trim x) word)"
    using map_foldAscii_eq [OF low] by blast
  finally show ?thesis by (simp add: sentinel_spec_def list_ex_iff)
qed

lemma sentinelTest_Nil: "\<not> sentinelTest []"
  by (simp add: sentinelTest_def)

text \<open>
  Claim C1, as stated, fails where it calls a blank field empty after trimming: a
  website of three spaces is a non-empty string, so \<^verbatim>\<open>!s.website\<close> is false, and trimmed
  it is the empty string, which the regular expression does not match; the merge keeps
  it although the enriched website is not empty. A description of ten spaces is kept in
  the same way.
\<close>

theorem blank_website_counterexample:
  "trim ''   '' = [] \<and>
   website (enrichStore formatDescription_spec
      [(exampleStore ''1'' ''Acme'')\<lparr>website := Some ''http://x.com''\<rparr>]
      ((exampleStore ''1'' ''Acme'')\<lparr>website := Some ''   ''\<rparr>)) = Some ''   '' \<and>
   trim ''          '' = [] \<and>
   description (enrichStore formatDescription_spec
      [(exampleStore ''1'' ''Acme'')\<lparr>description := Some ''new longer text''\<rparr>]
      ((exampleStore ''1'' ''Acme'')\<lparr>description := Some ''          ''\<rparr>))
     = Some ''          ''"
  by code_simp

text \<open>
  Claim C1, amended. The merge never changes a website or description that is not empty,
  and takes the enriched value whenever the field is empty and the enriched value is a
  non-empty string; an accepted description goes through \<^verbatim>\<open>formatDescription\<close>, an
  accepted website is written as it is; a field changes only in this way. A website is
  empty exactly when it is unset, the empty string, or a sentinel non-value (trimmed, one
  of none, n/a, na and false in any case); a description is empty exactly when it is
  unset, shorter than 10 code units, or a sentinel non-value. A website of white space
  only, and a description of 10 or more code units of white space only, are not empty
  and are kept.
\<close>

theorem enrich_non_destructive:
  "(\<not> websiteEmpty s \<longrightarrow> website (enrichStore fmt es s) = website s) \<and>
   (\<not> descEmpty s \<longrightarrow> description (enrichStore fmt es s) = description s) \<and>
   (\<forall>e. find (\<lambda>e. store_id e = store_id s) es = Some e \<and> websiteEmpty s \<and> truthy (website e)
        \<longrightarrow> website (enrichStore fmt es s) = website e) \<and>
   (\<forall>e d. find (\<lambda>e. store_id e = store_id s) es = Some e \<and> descEmpty s \<and>
          description e = Some d \<and> d \<noteq> []
        \<longrightarrow> description (enrichStore fmt es s) = Some (fmt d)) \<and>
   (website (enrichStore fmt es s) \<noteq> website s \<longrightarrow>
      (\<exists>e. find (\<lambda>e. store_id e = store_id s) es = Some e \<and> truthy (website e) \<and>
           website (enrichStore fmt es s) = website e)) \<and>
   (description (enrichStore fmt es s) \<noteq> description s \<longrightarrow>
      (\<exists>e d. find (\<lambda>e. store_id e = store_id s) es = Some e \<and> description e = Some d \<and>
           d \<noteq> [] \<and> description (enrichStore fmt es s) = Some (fmt d))) \<and>
   (websiteEmpty s \<longleftrightarrow>
      website s = None \<or> website s = Some [] \<or>
      (\<exists>w. website s = Some w \<and> sentinel_spec w)) \<and>
   (descEmpty s \<longleftrightarrow>
      description s = None \<or>
      (\<exists>d. description s = Some d \<and> (length d < 10 \<or> sentinel_spec d))) \<and>
   (\<forall>w. website s = Some w \<and> w \<noteq> [] \<and> trim w = [] \<longrightarrow> \<not> websiteEmpty s) \<and>
   (\<forall>d. description s = Some d \<and> 10 \<le> length d \<and> trim d = [] \<longrightarrow> \<not> descEmpty s)"
proof -
  have merge: "(\<not> websiteEmpty s \<longrightarrow> website (enrichStore fmt es s) = website s) \<and>
   (\<not> descEmpty s \<longrightarrow> description (enrichStore fmt es s) = description s) \<and>
   (\<forall>e. find (\<lambda>e. store_id e = store_id s) es = Some e \<and> websiteEmpty s \<and> truthy (website e)
        \<longrightarrow> website (enrichStore fmt es s) = website e) \<and>
   (\<forall>e d. find (\<lambda>e. store_id e = store_id s) es = Some e \<and> descEmpty s \<and>
          description e = Some d \<and> d \<noteq> []
        \<longrightarrow> description (enrichStore fmt es s) = Some (fmt d)) \<and>
   (website (enrichStore fmt es s) \<noteq> website s \<longrightarrow>
      (\<exists>e. find (\<lambda>e. store_id e = store_id s) es = Some e \<and> truthy (website e) \<and>
           website (enrichStore fmt es s) = website e)) \<and>
   (description (enrichStore fmt es s) \<noteq> description s \<longrightarrow>
      (\<exists>e d. find (\<lambda>e. store_id e = store_id s) es = Some e \<and> description e = Some d \<and>
           d \<noteq> [] \<and> description (enrichStore fmt es s) = Some (fmt d)))"
    by (auto simp: enrichStore_def mergeEnriched_website mergeEnriched_description truthy_def
             split: option.splits if_splits)
  have site: "websiteEmpty s \<longleftrightarrow>
      website s = None \<or> website s = Some [] \<or>
      (\<exists>w. website s = Some w \<and> sentinel_spec w)"
    by (auto simp: websiteEmpty_def sentinelTest_spec sentinelTest_Nil
             simp flip: sentinelTest_spec split: option.splits)
  have desc: "descEmpty s \<longleftrightarrow>
      description s = None \<or>
      (\<exists>d. description s = Some d \<and> (length d < 10 \<or> sentinel_spec d))"
    by (auto simp: descEmpty_def sentinelTest_spec split: option.splits)
  have ws: "\<forall>w. website s = Some w \<and> w \<noteq> [] \<and> trim w = [] \<longrightarrow> \<not> websiteEmpty s"
    by (auto simp: websiteEmpty_def sentinelTest_Nil)
  have wd: "\<forall>d. description s = Some d \<and> 10 \<le> length d \<and> trim d = [] \<longrightarrow> \<not> descEmpty s"
    by (auto simp: descEmpty_def sentinelTest_Nil)
  from merge site desc ws wd show ?thesis by blast
qed

text \<open>
  The two cases of claim C1, amended, at concrete stores: a store whose website and description
  are filled keeps both, and a store whose website is \<^verbatim>\<open>" N/a "\<close> and whose description
  is \<^verbatim>\<open>"FALSE"\<close> takes the enriched website as it is and the enriched description
  formatted. A website of two spaces is not empty.
\<close>

theorem enrich_non_destructive_witness:
  "\<not> websiteEmpty ((exampleStore ''1'' ''Acme'')
        \<lparr>website := Some ''https://acme.test'', description := Some ''Hand-made boots''\<rparr>) \<and>
   \<not> descEmpty ((exampleStore ''1'' ''Acme'')
        \<lparr>website := Some ''https://acme.test'', description := Some ''Hand-made boots''\<rparr>) \<and>
   enrichStore formatDescription_spec
     [(exampleStore ''1'' ''Acme'')
        \<lparr>website := Some ''http://x.com'', description := Some ''new   longer text''\<rparr>]
     ((exampleStore ''1'' ''Acme'')
        \<lparr>website := Some ''https://acme.test'', description := Some ''Hand-made boots''\<rparr>)
     = (exampleStore ''1'' ''Acme'')
        \<lparr>website := Some ''https://acme.test'', description := Some ''Hand-made boots''\<rparr> \<and>
   websiteEmpty ((exampleStore ''1'' ''Acme'')
        \<lparr>website := Some '' N/a '', description := Some ''FALSE''\<rparr>) \<and>
   descEmpty ((exampleStore ''1'' ''Acme'')
        \<lparr>website := Some '' N/a '', description := Some ''FALSE''\<rparr>) \<and>
   enrichStore formatDescription_spec
     [(exampleStore ''1'' ''Acme'')
        \<lparr>website := Some ''http://x.com'', description := Some ''new   longer text''\<rparr>]
     ((exampleStore ''1'' ''Acme'')\<lparr>website := Some '' N/a '', description := Some ''FALSE''\<rparr>)
     = (exampleStore ''1'' ''Acme'')
        \<lparr>website := Some ''http://x.com'', description := Some ''new longer text''\<rparr> \<and>
   \<not> websiteEmpty ((exampleStore ''1'' ''Acme'')\<lparr>website := Some ''  ''\<rparr>)"
proof -
  let ?e = "(exampleStore ''1'' ''Acme'')
        \<lparr>website := Some ''http://x.com'', description := Some ''new   longer text''\<rparr>"
  let ?full = "(exampleStore ''1'' ''Acme'')
        \<lparr>website := Some ''https://acme.test'', description := Some ''Hand-made boots''\<rparr>"
  let ?blank = "(exampleStore ''1'' ''Acme'')
        \<lparr>website := Some '' N/a '', description := Some ''FALSE''\<rparr>"
  have full: "\<not> websiteEmpty ?full" "\<not> descEmpty ?full"
    by code_simp+
  have blank: "websiteEmpty ?blank" "descEmpty ?blank"
    by code_simp+
  have found: "find (\<lambda>e. store_id e = store_id ?full) [?e] = Some ?e"
      "find (\<lambda>e. store_id e = store_id ?blank) [?e] = Some ?e"
    by (simp_all add: exampleStore_def)
  have fmt: "formatDescription_spec ''new   longer text'' = ''new longer text''"
    by code_simp
  have e: "truthy (website ?e)" "description ?e = Some ''new   longer text''"
    by (simp_all add: truthy_def)
  have 1: "website (enrichStore formatDescription_spec [?e] ?full) = website ?full"
      "description (enrichStore formatDescription_spec [?e] ?full) = description ?full"
    using enrich_non_destructive [of ?full formatDescription_spec "[?e]"] full by blast+
  have 2: "website (enrichStore formatDescription_spec [?e] ?blank) = website ?e"
      "description (enrichStore formatDescription_spec [?e] ?blank) = Some ''new longer text''"
    using enrich_non_destructive [of ?blank formatDescription_spec "[?e]"] blank found(2) e fmt
    by (blast, force)
  have frame: "\<And>s. enrichStore formatDescription_spec [?e] s =
      s\<lparr>description := description (enrichStore formatDescription_spec [?e] s),
        website := website (enrichStore formatDescription_spec [?e] s)\<rparr>"
    by (simp add: enrichStore_def mergeEnriched_def Let_def)
  have "enrichStore formatDescription_spec [?e] ?full = ?full"
    using frame [of ?full] 1 by (simp add: exampleStore_def)
  moreover have "enrichStore formatDescription_spec [?e] ?blank =
      (exampleStore ''1'' ''Acme'')
        \<lparr>website := Some ''http://x.com'', description := Some ''new longer text''\<rparr>"
    using frame [of ?blank] 2 by (simp add: exampleStore_def)
  moreover have "\<not> websiteEmpty ((exampleStore ''1'' ''Acme'')\<lparr>website := Some ''  ''\<rparr>)"
    by code_simp
  ultimately show ?thesis using full blank by blast
qed

text \<open>
  Claim C2, as stated, fails: in the scenario of the specification the existing
  description \<^verbatim>\<open>"ok"\<close> has two code units, fewer than 10, so it counts as empty and the
  merge replaces it with the formatted enriched description.
\<close>

theorem scenario_merge_counterexample:
  "description (enrichStore formatDescription_spec
      [(exampleStore ''1'' ''Acme'')
         \<lparr>website := Some ''http://x.com'', description := Some ''new longer text''\<rparr>]
      ((exampleStore ''1'' ''Acme'')\<lparr>website := Some ''N/A'', description := Some ''ok''\<rparr>))
   \<noteq> Some ''ok''"
  by code_simp

text \<open>
  Claim C2, amended: merging \<^verbatim>\<open>{website: "N/A", description: "ok"}\<close> with
  \<^verbatim>\<open>{website: "http://x.com", description: "new longer text"}\<close> yields the website
  \<^verbatim>\<open>"http://x.com"\<close> and the description \<^verbatim>\<open>formatDescription("new longer text")\<close>;
  every other field is unchanged.
\<close>

theorem scenario_merge:
  assumes "website s = Some ''N/A''" and "description s = Some ''ok''"
      and "website e = Some ''http://x.com''" and "description e = Some ''new longer text''"
      and "store_id e = store_id s"
  shows "enrichStore fmt [e] s =
           s\<lparr>website := Some ''http://x.com'', description := Some (fmt ''new longer text'')\<rparr>"
proof -
  have "sentinelTest (trim ''N/A'')" by code_simp
  then have "websiteEmpty s" using assms(1) by (simp add: websiteEmpty_def)
  moreover have "descEmpty s" using assms(2) by (simp add: descEmpty_def)
  ultimately show ?thesis
    using assms by (simp add: enrichStore_def mergeEnriched_def truthy_def)
qed

text \<open>
  The scenario of claim C2 with the formatter of the specification.
\<close>

theorem scenario_merge_witness:
  "enrichStore formatDescription_spec
      [(exampleStore ''1'' ''Acme'')
         \<lparr>website := Some ''http://x.com'', description := Some ''new longer text''\<rparr>]
      ((exampleStore ''1'' ''Acme'')\<lparr>website := Some ''N/A'', description := Some ''ok''\<rparr>)
   = (exampleStore ''1'' ''Acme'')
         \<lparr>website := Some ''http://x.com'', description := Some ''new longer text''\<rparr>"
proof -
  have fmt: "formatDescription_spec ''new longer text'' = ''new longer text''"
    by code_simp
  show ?thesis
    using scenario_merge [of "(exampleStore ''1'' ''Acme'')\<lparr>website := Some ''N/A'', description := Some ''ok''\<rparr>"
        "(exampleStore ''1'' ''Acme'')
         \<lparr>website := Some ''http://x.com'', description := Some ''new longer text''\<rparr>"
        formatDescription_spec]
    by (simp add: fmt exampleStore_def)
qed

text \<open>
  Claim C3. The merge of one store changes at most its website and description: the
  result is the existing store with these two fields replaced, so the id, name, tags,
  price range, rating, custom fields, contributor and every other field are the
  existing ones. A store with no entry of its id in the enrichment result is returned as
  it is. The saved collection is the active one with each store merged in place: the
  same number of stores, in the same order, and nothing else of the collection changed.
\<close>

theorem enrich_frame:
  "enrichStore fmt es s =
     s\<lparr>description := description (enrichStore fmt es s),
       website := website (enrichStore fmt es s)\<rparr> \<and>
   (let r = enrichStore fmt es s in
      store_id r = store_id s \<and> collectionId r = collectionId s \<and>
      store_name r = store_name s \<and> country r = country s \<and> city r = city s \<and>
      tags r = tags s \<and> priceRange r = priceRange s \<and> onSale r = onSale s \<and>
      isArchived r = isArchived s \<and> rating r = rating s \<and>
      sustainability r = sustainability s \<and> customFields r = customFields s \<and>
      addedBy r = addedBy s \<and> favoritedBy r = favoritedBy s \<and>
      privateNotes r = privateNotes s \<and> imageUrl r = imageUrl s) \<and>
   (find (\<lambda>e. store_id e = store_id s) es = None \<longrightarrow> enrichStore fmt es s = s) \<and>
   (\<forall>c'. handleEnrichComplete fmt (Some c) es = Some c' \<longrightarrow>
      c' = c\<lparr>stores := stores c'\<rparr> \<and>
      length (stores c') = length (stores c) \<and>
      (\<forall>i < length (stores c). stores c' ! i = enrichStore fmt es (stores c ! i)))"
proof -
  have "enrichStore fmt es s =
     s\<lparr>description := description (enrichStore fmt es s),
       website := website (enrichStore fmt es s)\<rparr>"
    using mergeEnriched_frame by (simp add: enrichStore_def split: option.splits)
  moreover have "let r = enrichStore fmt es s in
      store_id r = store_id s \<and> collectionId r = collectionId s \<and>
      store_name r = store_name s \<and> country r = country s \<and> city r = city s \<and>
      tags r = tags s \<and> priceRange r = priceRange s \<and> onSale r = onSale s \<and>
      isArchived r = isArchived s \<and> rating r = rating s \<and>
      sustainability r = sustainability s \<and> customFields r = customFields s \<and>
      addedBy r = addedBy s \<and> favoritedBy r = favoritedBy s \<and>
      privateNotes r = privateNotes s \<and> imageUrl r = imageUrl s"
    by (simp add: enrichStore_def mergeEnriched_def Let_def split: option.splits)
  moreover have "find (\<lambda>e. store_id e = store_id s) es = None \<longrightarrow> enrichStore fmt es s = s"
    by (simp add: enrichStore_def)
  moreover have "\<forall>c'. handleEnrichComplete fmt (Some c) es = Some c' \<longrightarrow>
      c' = c\<lparr>stores := stores c'\<rparr> \<and>
      length (stores c') = length (stores c) \<and>
      (\<forall>i < length (stores c). stores c' ! i = enrichStore fmt es (stores c ! i))"
    by (auto simp: handleEnrichComplete_def)
  ultimately show ?thesis by blast
qed

text \<open>
  Claim C3 at a collection of two stores of which only the first has an enrichment
  entry.
\<close>

theorem enrich_frame_witness:
  "find (\<lambda>e. store_id e = store_id (exampleStore ''2'' ''Zed''))
      [(exampleStore ''1'' ''Acme'')\<lparr>website := Some ''http://x.com''\<rparr>] = None \<and>
   enrichStore formatDescription_spec
      [(exampleStore ''1'' ''Acme'')\<lparr>website := Some ''http://x.com''\<rparr>]
      (exampleStore ''2'' ''Zed'') = exampleStore ''2'' ''Zed'' \<and>
   handleEnrichComplete formatDescription_spec
      (Some (exampleCollection [exampleStore ''1'' ''Acme'', exampleStore ''2'' ''Zed''] None))
      [(exampleStore ''1'' ''Acme'')\<lparr>website := Some ''http://x.com''\<rparr>]
     = Some (exampleCollection
         [(exampleStore ''1'' ''Acme'')\<lparr>website := Some ''http://x.com''\<rparr>,
          exampleStore ''2'' ''Zed''] None)"
proof -
  let ?es = "[(exampleStore ''1'' ''Acme'')\<lparr>website := Some ''http://x.com''\<rparr>]"
  let ?c = "exampleCollection [exampleStore ''1'' ''Acme'', exampleStore ''2'' ''Zed''] None"
  have none: "find (\<lambda>e. store_id e = store_id (exampleStore ''2'' ''Zed'')) ?es = None"
    by code_simp
  have run: "handleEnrichComplete formatDescription_spec (Some ?c) ?es
     = Some (exampleCollection
         [(exampleStore ''1'' ''Acme'')\<lparr>website := Some ''http://x.com''\<rparr>,
          exampleStore ''2'' ''Zed''] None)"
    by code_simp
  from enrich_frame [of formatDescription_spec ?es "exampleStore ''2'' ''Zed''" ?c] none run
  show ?thesis by blast
qed

section \<open>Properties of adding and importing\<close>

lemma map_enumerate_nth:
  "map (\<lambda>(i, s). g i s) (enumerate 0 xs) = map (\<lambda>i. g i (xs ! i)) [0..<length xs]"
  by (rule nth_equalityI) (simp_all add: nth_enumerate_eq)

text \<open>
  Claim C9, as stated, fails. The import lowercases and trims the tags but does not
  deduplicate them: \<^verbatim>\<open>["Red", " red"]\<close> becomes \<^verbatim>\<open>["red", "red"]\<close>. And
  \<^verbatim>\<open>handleAddStore\<close> does not keep a supplied description: the new store's description
  is the empty string.
\<close>

theorem normalization_counterexample:
  "tags (fullStore getPriceBucket_spec exampleUser ''c1'' ''id-1''
           ((exampleImported ''Acme'')\<lparr>i_tags := [''Red'', '' red'']\<rparr>)) = [''red'', ''red''] \<and>
   description (newStore (exampleCollection [] None) exampleUser ''id-1''
           ((examplePayload ''Acme'')\<lparr>p_description := Some ''Hand-made boots''\<rparr>)) = Some ''''"
  by code_simp

text \<open>
  Claim C9, amended. The import builds each store from a parsed store as follows: it
  keeps the name, description, website, country, city, rating, sustainability, sale and
  archive flags and image; it defaults the custom fields to the empty object only when
  they are unset; it replaces the price range by its bucket; it lowercases and then trims
  each tag, keeping their order and number; it sets a fresh id, the target collection,
  the contributor, and empty favourites and notes. It saves the target collection with,
  in append mode after its own stores, these stores in the order of the input, cut to
  \<^verbatim>\<open>MAX_STORES_PER_COLLECTION\<close>; without a user it saves nothing.
  \<^verbatim>\<open>handleAddStore\<close> builds the new store as follows: it keeps the name, website, sale and
  archive flags and image of its payload; it keeps a supplied price range and defaults it
  to the empty string when unset; it keeps supplied tags as they are and defaults them to
  the empty list when unset; it sets description, country, city and sustainability to the
  empty string, rating to 0 and custom fields to the empty object whatever the payload
  holds, so that an unset field gets its neutral value and a supplied value of these
  fields is not kept; it sets a fresh id, the active collection, the contributor, and
  empty favourites and notes. It saves the active collection with the new store appended;
  without an active collection or without a user it saves nothing.
\<close>

theorem store_normalization:
  "fullStore gpb u cid uuid s =
     \<lparr> store_id = uuid, collectionId = cid, store_name = i_store_name s,
       description = i_description s, website = i_website s, country = i_country s,
       city = i_city s, tags = map (\<lambda>t. trim (toLowerCase t)) (i_tags s),
       priceRange = gpb (i_priceRange s), onSale = i_onSale s, isArchived = i_isArchived s,
       rating = i_rating s, sustainability = i_sustainability s,
       customFields = (case i_customFields s of None \<Rightarrow> [] | Some cf \<Rightarrow> cf),
       addedBy = \<lparr> by_userId = userId u, by_userName = userName u \<rparr>,
       favoritedBy = [], privateNotes = [], imageUrl = i_imageUrl s \<rparr> \<and>
   importComplete gpb maxStores uuids (Some u) colls ac mode ss cid =
     (let target = (case find (\<lambda>c. coll_id c = cid) colls of Some c \<Rightarrow> c | None \<Rightarrow> ac) in
      Some (target\<lparr>stores :=
        take maxStores
          ((if mode = Append then stores target else []) @
           map (\<lambda>i. fullStore gpb u cid (uuids i) (ss ! i)) [0..<length ss])\<rparr>)) \<and>
   importComplete gpb maxStores uuids None colls ac mode ss cid = None \<and>
   newStore c u uuid d =
     \<lparr> store_id = uuid, collectionId = coll_id c, store_name = p_store_name d,
       description = Some [], website = p_website d, country = [], city = [],
       tags = (case p_tags d of None \<Rightarrow> [] | Some ts \<Rightarrow> ts),
       priceRange = (case p_priceRange d of None \<Rightarrow> Some [] | Some p \<Rightarrow> Some p),
       onSale = p_onSale d, isArchived = p_isArchived d, rating = 0, sustainability = [],
       customFields = [],
       addedBy = \<lparr> by_userId = userId u, by_userName = userName u \<rparr>,
       favoritedBy = [], privateNotes = [], imageUrl = p_imageUrl d \<rparr> \<and>
   handleAddStore (Some c) (Some u) uuid d =
     Some (c\<lparr>stores := stores c @ [newStore c u uuid d]\<rparr>) \<and>
   handleAddStore None usr uuid d = None \<and>
   handleAddStore aco None uuid d = None"
proof -
  have 1: "fullStore gpb u cid uuid s =
     \<lparr> store_id = uuid, collectionId = cid, store_name = i_store_name s,
       description = i_description s, website = i_website s, country = i_country s,
       city = i_city s, tags = map (\<lambda>t. trim (toLowerCase t)) (i_tags s),
       priceRange = gpb (i_priceRange s), onSale = i_onSale s, isArchived = i_isArchived s,
       rating = i_rating s, sustainability = i_sustainability s,
       customFields = (case i_customFields s of None \<Rightarrow> [] | Some cf \<Rightarrow> cf),
       addedBy = \<lparr> by_userId = userId u, by_userName = userName u \<rparr>,
       favoritedBy = [], privateNotes = [], imageUrl = i_imageUrl s \<rparr>"
    by (simp add: fullStore_def)
  have 2: "importComplete gpb maxStores uuids (Some u) colls ac mode ss cid =
     (let target = (case find (\<lambda>c. coll_id c = cid) colls of Some c \<Rightarrow> c | None \<Rightarrow> ac) in
      Some (target\<lparr>stores :=
        take maxStores
          ((if mode = Append then stores target else []) @
           map (\<lambda>i. fullStore gpb u cid (uuids i) (ss ! i)) [0..<length ss])\<rparr>))"
    by (cases mode) (simp_all add: importComplete_def Let_def map_enumerate_nth)
  have 3: "importComplete gpb maxStores uuids None colls ac mode ss cid = None"
    by (simp add: importComplete_def)
  have 4: "newStore c u uuid d =
     \<lparr> store_id = uuid, collectionId = coll_id c, store_name = p_store_name d,
       description = Some [], website = p_website d, country = [], city = [],
       tags = (case p_tags d of None \<Rightarrow> [] | Some ts \<Rightarrow> ts),
       priceRange = (case p_priceRange d of None \<Rightarrow> Some [] | Some p \<Rightarrow> Some p),
       onSale = p_onSale d, isArchived = p_isArchived d, rating = 0, sustainability = [],
       customFields = [],
       addedBy = \<lparr> by_userId = userId u, by_userName = userName u \<rparr>,
       favoritedBy = [], privateNotes = [], imageUrl = p_imageUrl d \<rparr>"
    by (simp add: newStore_def truthy_def split: option.splits)
  have 5: "handleAddStore (Some c) (Some u) uuid d =
     Some (c\<lparr>stores := stores c @ [newStore c u uuid d]\<rparr>)"
    by (simp add: handleAddStore_def)
  have 6: "handleAddStore None usr uuid d = None" "handleAddStore aco None uuid d = None"
    by (simp_all add: handleAddStore_def split: option.splits)
  from 1 2 3 4 5 6 show ?thesis by blast
qed

text \<open>
  Claim C9, amended, at a parsed store with the tags \<^verbatim>\<open>[" Red", "BOOTS"]\<close> and the
  price \<^verbatim>\<open>"$$$"\<close>, at an add payload that holds a description and the same tags, and at
  an add payload that holds only a name.
\<close>

theorem store_normalization_witness:
  "importComplete getPriceBucket_spec 500 (\<lambda>i. ''id-1'') (Some exampleUser) []
      (exampleCollection [] None) Import
      [(exampleImported ''Acme'')\<lparr>i_tags := ['' Red'', ''BOOTS'']\<rparr>] ''c1''
     = Some (exampleCollection
         [fullStore getPriceBucket_spec exampleUser ''c1'' ''id-1''
            ((exampleImported ''Acme'')\<lparr>i_tags := ['' Red'', ''BOOTS'']\<rparr>)] None) \<and>
   tags (fullStore getPriceBucket_spec exampleUser ''c1'' ''id-1''
            ((exampleImported ''Acme'')\<lparr>i_tags := ['' Red'', ''BOOTS'']\<rparr>)) = [''red'', ''boots''] \<and>
   priceRange (fullStore getPriceBucket_spec exampleUser ''c1'' ''id-1''
            ((exampleImported ''Acme'')\<lparr>i_tags := ['' Red'', ''BOOTS'']\<rparr>)) = Some ''high'' \<and>
   description (fullStore getPriceBucket_spec exampleUser ''c1'' ''id-1''
            ((exampleImported ''Acme'')\<lparr>i_tags := ['' Red'', ''BOOTS'']\<rparr>))
     = Some ''Hand-made boots'' \<and>
   description (newStore (exampleCollection [] None) exampleUser ''id-1''
            ((examplePayload ''Zed'')\<lparr>p_description := Some ''Vegan shoes'',
                                        p_tags := Some ['' Red'', ''BOOTS'']\<rparr>)) = Some '''' \<and>
   tags (newStore (exampleCollection [] None) exampleUser ''id-1''
            ((examplePayload ''Zed'')\<lparr>p_description := Some ''Vegan shoes'',
                                        p_tags := Some ['' Red'', ''BOOTS'']\<rparr>))
     = ['' Red'', ''BOOTS''] \<and>
   tags (newStore (exampleCollection [] None) exampleUser ''id-1'' (examplePayload ''Zed'')) = [] \<and>
   handleAddStore (Some (exampleCollection [] None)) (Some exampleUser) ''id-1''
      (examplePayload ''Zed'')
     = Some (exampleCollection
         [newStore (exampleCollection [] None) exampleUser ''id-1'' (examplePayload ''Zed'')] None)"
proof -
  let ?s = "(exampleImported ''Acme'')\<lparr>i_tags := ['' Red'', ''BOOTS'']\<rparr>"
  let ?r = "fullStore getPriceBucket_spec exampleUser ''c1'' ''id-1'' ?s"
  let ?c = "exampleCollection [] None"
  let ?d = "examplePayload ''Zed''"
  let ?d' = "(examplePayload ''Zed'')\<lparr>p_description := Some ''Vegan shoes'',
                                        p_tags := Some ['' Red'', ''BOOTS'']\<rparr>"
  note inst = store_normalization [where gpb = getPriceBucket_spec and u = exampleUser
      and cid = "''c1''" and uuid = "''id-1''" and s = ?s and c = ?c and d = ?d
      and maxStores = 500 and uuids = "\<lambda>i. ''id-1''" and colls = "[]" and ac = ?c
      and mode = Import and ss = "[?s]"]
  note inst' = store_normalization [where gpb = getPriceBucket_spec and u = exampleUser
      and cid = "''c1''" and uuid = "''id-1''" and s = ?s and c = ?c and d = ?d'
      and maxStores = 500 and uuids = "\<lambda>i. ''id-1''" and colls = "[]" and ac = ?c
      and mode = Import and ss = "[?s]"]
  have ev: "trim (toLowerCase '' Red'') = ''red''" "trim (toLowerCase ''BOOTS'') = ''boots''"
      "getPriceBucket_spec ''$$$'' = Some ''high''"
    by code_simp+
  from inst have imp: "importComplete getPriceBucket_spec 500 (\<lambda>i. ''id-1'') (Some exampleUser) []
      ?c Import [?s] ''c1'' = Some (exampleCollection [?r] None)"
    by (simp add: exampleCollection_def)
  from inst have r: "tags ?r = map (\<lambda>t. trim (toLowerCase t)) (i_tags ?s)"
      "priceRange ?r = getPriceBucket_spec (i_priceRange ?s)"
      "description ?r = i_description ?s"
    by simp_all
  then have 1: "tags ?r = [''red'', ''boots'']" "priceRange ?r = Some ''high''"
      "description ?r = Some ''Hand-made boots''"
    using ev by (simp_all add: exampleImported_def)
  from inst' have 2: "description (newStore ?c exampleUser ''id-1'' ?d') = Some ''''"
      "tags (newStore ?c exampleUser ''id-1'' ?d') = ['' Red'', ''BOOTS'']"
    by simp_all
  from inst have 3: "tags (newStore ?c exampleUser ''id-1'' ?d) = []"
    by (simp add: examplePayload_def)
  from inst have 4: "handleAddStore (Some ?c) (Some exampleUser) ''id-1'' ?d
     = Some (exampleCollection [newStore ?c exampleUser ''id-1'' ?d] None)"
    by (simp add: exampleCollection_def)
  from imp 1 2 3 4 show ?thesis by blast
qed

section \<open>Properties of deleting\<close>

text \<open>
  Claim C10. Deleting one store removes the stores of that id from the store list and
  leaves the folios as they are, so a folio that referred to the store still does.
  Deleting a selection removes the selected stores from the store list and the selected
  ids from the \<^verbatim>\<open>storeIds\<close> of every folio: afterwards no folio refers to a selected id.
\<close>

theorem delete_folio_references:
  "(\<forall>c'. handleDeleteStore (Some c) storeId = Some c' \<longrightarrow>
      stores c' = filter (\<lambda>s. store_id s \<noteq> storeId) (stores c) \<and>
      storeId \<notin> store_id ` set (stores c') \<and>
      folios c' = folios c \<and>
      map storeIds (foliosOrEmpty c') = map storeIds (foliosOrEmpty c)) \<and>
   (\<forall>c'. handleBulkDelete (Some c) selectedStoreIds = Some c' \<longrightarrow>
      stores c' = filter (\<lambda>s. store_id s \<notin> selectedStoreIds) (stores c) \<and>
      store_id ` set (stores c') \<inter> selectedStoreIds = {} \<and>
      map storeIds (foliosOrEmpty c') =
        map (filter (\<lambda>i. i \<notin> selectedStoreIds)) (map storeIds (foliosOrEmpty c)) \<and>
      (\<forall>f \<in> set (foliosOrEmpty c'). set (storeIds f) \<inter> selectedStoreIds = {}))"
  by (auto simp: handleDeleteStore_def handleBulkDelete_def foliosOrEmpty_def Let_def comp_def
           split: option.splits)

text \<open>
  Claim C10 at a collection with two stores and a folio that holds both: after the
  single delete of store 1 the folio still lists 1 and 2, after the bulk delete of
  the selection \<open>{1}\<close> it lists 2.
\<close>

theorem delete_folio_references_witness:
  "handleDeleteStore
     (Some (exampleCollection [exampleStore ''1'' ''Acme'', exampleStore ''2'' ''Zed'']
              (Some [exampleFolio ''f1'' [''1'', ''2'']]))) ''1''
   = Some (exampleCollection [exampleStore ''2'' ''Zed'']
             (Some [exampleFolio ''f1'' [''1'', ''2'']])) \<and>
   map storeIds (foliosOrEmpty (exampleCollection [exampleStore ''2'' ''Zed'']
             (Some [exampleFolio ''f1'' [''1'', ''2'']]))) = [[''1'', ''2'']] \<and>
   handleBulkDelete
     (Some (exampleCollection [exampleStore ''1'' ''Acme'', exampleStore ''2'' ''Zed'']
              (Some [exampleFolio ''f1'' [''1'', ''2'']]))) {''1''}
   = Some (exampleCollection [exampleStore ''2'' ''Zed''] (Some [exampleFolio ''f1'' [''2'']])) \<and>
   map storeIds (foliosOrEmpty (exampleCollection [exampleStore ''2'' ''Zed'']
             (Some [exampleFolio ''f1'' [''2'']]))) = [[''2'']]"
proof -
  let ?c = "exampleCollection [exampleStore ''1'' ''Acme'', exampleStore ''2'' ''Zed'']
              (Some [exampleFolio ''f1'' [''1'', ''2'']])"
  have single: "handleDeleteStore (Some ?c) ''1''
      = Some (exampleCollection [exampleStore ''2'' ''Zed'']
                (Some [exampleFolio ''f1'' [''1'', ''2'']]))"
    by (simp add: handleDeleteStore_def exampleCollection_def exampleStore_def)
  have bulk: "handleBulkDelete (Some ?c) {''1''}
      = Some (exampleCollection [exampleStore ''2'' ''Zed''] (Some [exampleFolio ''f1'' [''2'']]))"
    by (simp add: handleBulkDelete_def exampleCollection_def exampleStore_def exampleFolio_def
          foliosOrEmpty_def)
  have before: "map storeIds (foliosOrEmpty ?c) = [[''1'', ''2'']]"
    by (simp add: foliosOrEmpty_def exampleCollection_def exampleFolio_def)
  note d = delete_folio_references [of ?c "''1''" "{''1''}"]
  from d single have "map storeIds (foliosOrEmpty (exampleCollection [exampleStore ''2'' ''Zed'']
             (Some [exampleFolio ''f1'' [''1'', ''2'']]))) = map storeIds (foliosOrEmpty ?c)"
    by blast
  then have 1: "map storeIds (foliosOrEmpty (exampleCollection [exampleStore ''2'' ''Zed'']
             (Some [exampleFolio ''f1'' [''1'', ''2'']]))) = [[''1'', ''2'']]"
    by (simp only: before)
  from d bulk have "map storeIds (foliosOrEmpty (exampleCollection [exampleStore ''2'' ''Zed'']
             (Some [exampleFolio ''f1'' [''2'']])))
      = map (filter (\<lambda>i. i \<notin> {''1''})) (map storeIds (foliosOrEmpty ?c))"
    by blast
  then have 2: "map storeIds (foliosOrEmpty (exampleCollection [exampleStore ''2'' ''Zed'']
             (Some [exampleFolio ''f1'' [''2'']]))) = [[''2'']]"
    by (simp add: before)
  from single bulk 1 2 show ?thesis by blast
qed

section \<open>Properties of the facet filter\<close>

lemma error_eq: "(e :: error) = e'"
  by (cases e; cases e') simp

lemma array_filter_Inr:
  "array_filter p xs = Inr ys \<longleftrightarrow>
     (\<forall>x \<in> set xs. \<exists>b. p x = Inr b) \<and> ys = filter (\<lambda>x. p x = Inr True) xs"
proof (induction xs arbitrary: ys)
  case Nil
  then show ?case by auto
next
  case (Cons x xs)
  show ?case
  proof (cases "p x")
    case (Inl e)
    then show ?thesis by auto
  next
    case (Inr b)
    show ?thesis
    proof (cases "array_filter p xs")
      case (Inl e)
      with Inr Cons.IH show ?thesis by auto
    next
      case r: (Inr zs)
      with Inr Cons.IH [of zs] show ?thesis by auto
    qed
  qed
qed

lemma array_filter_Inl:
  "array_filter p xs = Inl e \<longleftrightarrow> (\<exists>x \<in> set xs. \<exists>e'. p x = Inl e')"
proof -
  have ex: "(\<exists>e'. array_filter p xs = Inl e') \<longleftrightarrow> (\<exists>x \<in> set xs. \<exists>e'. p x = Inl e')"
    by (induction xs) (auto split: sum.splits)
  show ?thesis
  proof
    assume "array_filter p xs = Inl e"
    with ex show "\<exists>x \<in> set xs. \<exists>e'. p x = Inl e'" by blast
  next
    assume "\<exists>x \<in> set xs. \<exists>e'. p x = Inl e'"
    with ex obtain e' where "array_filter p xs = Inl e'" by blast
    then show "array_filter p xs = Inl e" using error_eq [of e' e] by simp
  qed
qed

lemma matchesCustomFields_True:
  "matchesCustomFields cf s = Inr True \<longleftrightarrow>
     (\<forall>(field, options) \<in> set cf.
        options \<noteq> [] \<longrightarrow>
        (\<exists>vs. storeValues s field = Strings vs \<and> (\<exists>v \<in> set vs. v \<in> set options)))"
proof (induction cf s rule: matchesCustomFields.induct)
  case (1 s)
  then show ?case by simp
next
  case (2 field selectedOptions entries s)
  show ?case
  proof (cases "selectedOptions = []")
    case True
    with 2 show ?thesis by simp
  next
    case False
    show ?thesis
    proof (cases "storeValues s field")
      case (Strings vs)
      with False 2 show ?thesis
        by (auto simp: someIncludes_def list_ex_iff)
    next
      case Inherited
      with False show ?thesis
        by (auto simp: someIncludes_def)
    qed
  qed
qed

lemma matchesCustomFields_returns:
  assumes "\<forall>(field, options) \<in> set cf. options \<noteq> [] \<longrightarrow> storeValues s field \<noteq> Inherited"
  shows "\<exists>b. matchesCustomFields cf s = Inr b"
  using assms
proof (induction cf s rule: matchesCustomFields.induct)
  case (1 s)
  then show ?case by auto
next
  case (2 field selectedOptions entries s)
  show ?case
  proof (cases "selectedOptions = []")
    case True
    with 2 show ?thesis by auto
  next
    case False
    with "2.prems" obtain vs where vs: "storeValues s field = Strings vs"
      by (cases "storeValues s field") auto
    show ?thesis
    proof (cases "list_ex (\<lambda>opt. opt \<in> set vs) selectedOptions")
      case True
      have "\<exists>b. matchesCustomFields entries s = Inr b"
        using "2.IH"(2) [of True] "2.prems" False vs True by (simp add: someIncludes_def)
      with False vs True show ?thesis by (simp add: someIncludes_def)
    next
      case no: False
      with False vs have "matchesCustomFields ((field, selectedOptions) # entries) s = Inr False"
        by (simp add: someIncludes_def)
      then show ?thesis by blast
    qed
  qed
qed

lemma storeValues_safe:
  "field \<notin> set objectPrototypeNames \<Longrightarrow> storeValues s field \<noteq> Inherited"
  by (simp add: storeValues_def split: option.splits)

lemma matchesFilters_Inr:
  "matchesFilters t gpb f sa s = Inr b \<longleftrightarrow>
     (\<exists>custom. matchesCustomFields (f_customFields f) s = Inr custom \<and>
        b = (matchesSearch t (toLowerCase (trim (f_search f))) s \<and> matchesArchive sa s \<and>
             matchesTags (f_tags f) s \<and> matchesSale (f_onSale f) s \<and>
             matchesPrice gpb (f_priceRanges f) s \<and> custom))"
  by (auto simp: matchesFilters_def Let_def split: sum.splits)

lemma matchesFilters_Inl:
  "matchesFilters t gpb f sa s = Inl e \<longleftrightarrow> matchesCustomFields (f_customFields f) s = Inl e"
  by (auto simp: matchesFilters_def Let_def split: sum.splits)

lemma filteredStores_None:
  "filteredStores t cmp gpb None usr f sa = Inr []"
  "filteredStores t cmp gpb ac None f sa = Inr []"
  by (simp_all add: filteredStores_def split: option.splits)

lemma filteredStores_Inr:
  "filteredStores t cmp gpb (Some c) (Some u) f sa = Inr rs \<longleftrightarrow>
     (\<forall>s \<in> set (stores c). \<exists>b. matchesFilters t gpb f sa s = Inr b) \<and>
     rs = array_sort (\<lambda>a b. cmp (store_name a) (store_name b))
            (filter (\<lambda>s. matchesFilters t gpb f sa s = Inr True) (stores c))"
proof (cases "array_filter (matchesFilters t gpb f sa) (stores c)")
  case (Inl e)
  then have "\<exists>s \<in> set (stores c). \<exists>e'. matchesFilters t gpb f sa s = Inl e'"
    by (simp add: array_filter_Inl)
  then have "\<not> (\<forall>s \<in> set (stores c). \<exists>b. matchesFilters t gpb f sa s = Inr b)"
    by fastforce
  with Inl show ?thesis by (simp add: filteredStores_def)
next
  case (Inr ys)
  then have ys: "(\<forall>x \<in> set (stores c). \<exists>b. matchesFilters t gpb f sa x = Inr b)"
      "ys = filter (\<lambda>x. matchesFilters t gpb f sa x = Inr True) (stores c)"
    by (simp_all add: array_filter_Inr)
  have "filteredStores t cmp gpb (Some c) (Some u) f sa =
      Inr (array_sort (\<lambda>a b. cmp (store_name a) (store_name b)) ys)"
    using Inr by (simp add: filteredStores_def)
  with ys show ?thesis by auto
qed

lemma filteredStores_Inl:
  "filteredStores t cmp gpb ac usr f sa = Inl e \<longleftrightarrow>
     (\<exists>c u. ac = Some c \<and> usr = Some u \<and>
        (\<exists>s \<in> set (stores c). \<exists>e'. matchesCustomFields (f_customFields f) s = Inl e'))"
proof (cases ac)
  case None
  then show ?thesis by (simp add: filteredStores_None)
next
  case c: (Some c)
  show ?thesis
  proof (cases usr)
    case None
    then show ?thesis by (simp add: filteredStores_None)
  next
    case (Some u)
    have "filteredStores t cmp gpb (Some c) (Some u) f sa = Inl e \<longleftrightarrow>
        array_filter (matchesFilters t gpb f sa) (stores c) = Inl e"
      using error_eq [of _ e] by (auto simp: filteredStores_def split: sum.splits)
    also have "\<dots> \<longleftrightarrow> (\<exists>s \<in> set (stores c). \<exists>e'. matchesFilters t gpb f sa s = Inl e')"
      by (rule array_filter_Inl)
    also have "\<dots> \<longleftrightarrow>
        (\<exists>s \<in> set (stores c). \<exists>e'. matchesCustomFields (f_customFields f) s = Inl e')"
      by (simp add: matchesFilters_Inl)
    finally show ?thesis using c Some by simp
  qed
qed

lemma in_filteredStores:
  assumes "filteredStores t cmp gpb ac usr f sa = Inr rs"
  shows "s \<in> set rs \<longleftrightarrow>
     (\<exists>c u. ac = Some c \<and> usr = Some u \<and> s \<in> set (stores c) \<and>
        matchesFilters t gpb f sa s = Inr True)"
  using assms
  by (cases ac; cases usr) (auto simp: filteredStores_None filteredStores_Inr set_array_sort)

lemma mset_filteredStores:
  assumes "filteredStores t cmp gpb (Some c) (Some u) f sa = Inr rs"
  shows "mset rs = filter_mset (\<lambda>s. matchesFilters t gpb f sa s = Inr True) (mset (stores c))"
  using assms by (simp add: filteredStores_Inr mset_array_sort)

lemma filteredStores_returns:
  assumes "\<forall>(field, options) \<in> set (f_customFields f).
             options = [] \<or> field \<notin> set objectPrototypeNames"
  shows "\<exists>rs. filteredStores t cmp gpb ac usr f sa = Inr rs"
proof (cases "filteredStores t cmp gpb ac usr f sa")
  case (Inl e)
  then have "\<exists>c :: collection.
      \<exists>s \<in> set (stores c). \<exists>e'. matchesCustomFields (f_customFields f) s = Inl e'"
    unfolding filteredStores_Inl by blast
  then obtain c :: collection and s e' where "s \<in> set (stores c)"
    and "matchesCustomFields (f_customFields f) s = Inl e'"
    by blast
  moreover have "\<exists>b. matchesCustomFields (f_customFields f) s = Inr b"
    by (rule matchesCustomFields_returns) (use assms storeValues_safe in fastforce)
  ultimately show ?thesis by simp
next
  case (Inr rs)
  then show ?thesis by blast
qed

lemma filteredStores_mono:
  assumes custom: "f_customFields g = f_customFields f"
      and imp: "\<And>s. matchesFilters t gpb f sa s = Inr True \<Longrightarrow> matchesFilters t gpb g sa s = Inr True"
  shows "(\<forall>rs. filteredStores t cmp gpb ac usr f sa = Inr rs \<longrightarrow>
            (\<exists>rs'. filteredStores t cmp gpb ac usr g sa = Inr rs' \<and> mset rs \<subseteq># mset rs')) \<and>
         (\<forall>e. filteredStores t cmp gpb ac usr f sa = Inl e \<longrightarrow>
            filteredStores t cmp gpb ac usr g sa = Inl e)"
proof (intro conjI allI impI)
  fix e
  assume "filteredStores t cmp gpb ac usr f sa = Inl e"
  then show "filteredStores t cmp gpb ac usr g sa = Inl e"
    by (simp add: filteredStores_Inl custom)
next
  fix rs
  assume rs: "filteredStores t cmp gpb ac usr f sa = Inr rs"
  show "\<exists>rs'. filteredStores t cmp gpb ac usr g sa = Inr rs' \<and> mset rs \<subseteq># mset rs'"
  proof (cases "filteredStores t cmp gpb ac usr g sa")
    case (Inl e)
    then have "filteredStores t cmp gpb ac usr f sa = Inl e"
      by (simp add: filteredStores_Inl custom)
    with rs show ?thesis by simp
  next
    case (Inr rs')
    have "mset rs \<subseteq># mset rs'"
    proof (cases ac)
      case None
      with rs Inr show ?thesis by (simp add: filteredStores_None)
    next
      case c: (Some c)
      show ?thesis
      proof (cases usr)
        case None
        with rs Inr show ?thesis by (simp add: filteredStores_None)
      next
        case (Some u)
        with c rs Inr show ?thesis
          using imp by (simp add: mset_filteredStores filter_mset_mono_strong)
      qed
    qed
    with Inr show ?thesis by blast
  qed
qed

text \<open>
  Claim C4. With a non-empty \<^verbatim>\<open>priceRanges\<close>, every store of the result has a non-empty
  price range whose bucket is one of \<^verbatim>\<open>priceRanges\<close>; a store whose price range is unset
  or empty, or for which \<^verbatim>\<open>getPriceBucket\<close> yields no bucket id, is not in the result.
  With an empty \<^verbatim>\<open>priceRanges\<close> the price clause holds of every store and the callback
  combines the other five clauses only. The filter returns a list
  whenever no field of \<^verbatim>\<open>filter.customFields\<close> with a non-empty option list is named like
  a member of \<^verbatim>\<open>Object.prototype\<close>.
\<close>

theorem price_facet:
  "(f_priceRanges f \<noteq> [] \<longrightarrow>
      (\<forall>rs. filteredStores t cmp gpb ac usr f sa = Inr rs \<longrightarrow>
         (\<forall>s \<in> set rs.
            \<exists>p b. priceRange s = Some p \<and> p \<noteq> [] \<and> gpb p = Some b \<and>
                  b \<in> set (f_priceRanges f)))) \<and>
   (f_priceRanges f \<noteq> [] \<and> (\<not> truthy (priceRange s) \<or> gpb (the (priceRange s)) = None)
      \<longrightarrow> (\<forall>rs. filteredStores t cmp gpb ac usr f sa = Inr rs \<longrightarrow> s \<notin> set rs)) \<and>
   (f_priceRanges f = [] \<longrightarrow>
      matchesPrice gpb (f_priceRanges f) s \<and>
      matchesFilters t gpb f sa s =
        (case matchesCustomFields (f_customFields f) s of
           Inl e \<Rightarrow> Inl e
         | Inr custom \<Rightarrow>
             Inr (matchesSearch t (toLowerCase (trim (f_search f))) s \<and> matchesArchive sa s \<and>
                  matchesTags (f_tags f) s \<and> matchesSale (f_onSale f) s \<and> custom))) \<and>
   ((\<forall>(field, options) \<in> set (f_customFields f).
        options = [] \<or> field \<notin> set objectPrototypeNames)
      \<longrightarrow> (\<exists>rs. filteredStores t cmp gpb ac usr f sa = Inr rs))"
proof -
  have 1: "f_priceRanges f \<noteq> [] \<longrightarrow>
      (\<forall>rs. filteredStores t cmp gpb ac usr f sa = Inr rs \<longrightarrow>
         (\<forall>s \<in> set rs.
            \<exists>p b. priceRange s = Some p \<and> p \<noteq> [] \<and> gpb p = Some b \<and>
                  b \<in> set (f_priceRanges f)))"
    by (auto simp: in_filteredStores matchesFilters_Inr matchesPrice_def truthy_def
             split: option.splits)
  have 2: "f_priceRanges f \<noteq> [] \<and> (\<not> truthy (priceRange s) \<or> gpb (the (priceRange s)) = None)
      \<longrightarrow> (\<forall>rs. filteredStores t cmp gpb ac usr f sa = Inr rs \<longrightarrow> s \<notin> set rs)"
    by (auto simp: in_filteredStores matchesFilters_Inr matchesPrice_def truthy_def
             split: option.splits)
  have 3: "f_priceRanges f = [] \<longrightarrow>
      matchesPrice gpb (f_priceRanges f) s \<and>
      matchesFilters t gpb f sa s =
        (case matchesCustomFields (f_customFields f) s of
           Inl e \<Rightarrow> Inl e
         | Inr custom \<Rightarrow>
             Inr (matchesSearch t (toLowerCase (trim (f_search f))) s \<and> matchesArchive sa s \<and>
                  matchesTags (f_tags f) s \<and> matchesSale (f_onSale f) s \<and> custom))"
    by (auto simp: matchesFilters_def matchesPrice_def Let_def split: sum.splits)
  have 4: "(\<forall>(field, options) \<in> set (f_customFields f).
        options = [] \<or> field \<notin> set objectPrototypeNames)
      \<longrightarrow> (\<exists>rs. filteredStores t cmp gpb ac usr f sa = Inr rs)"
    using filteredStores_returns by blast
  from 1 2 3 4 show ?thesis by blast
qed

text \<open>
  Claim C4 with the facet \<^verbatim>\<open>["high"]\<close> and three stores priced \<^verbatim>\<open>"$$$"\<close>, \<^verbatim>\<open>""\<close> and
  \<^verbatim>\<open>"free"\<close>: only the first is in the result.
\<close>

theorem price_facet_witness:
  "f_priceRanges (emptyFilters\<lparr>f_priceRanges := [''high'']\<rparr>) \<noteq> [] \<and>
   \<not> truthy (priceRange ((exampleStore ''2'' ''Blank'')\<lparr>priceRange := Some ''''\<rparr>)) \<and>
   getPriceBucket_spec
     (the (priceRange ((exampleStore ''3'' ''Cheap'')\<lparr>priceRange := Some ''free''\<rparr>))) = None \<and>
   filteredStores (\<lambda>k. k) compareStoreNames_spec getPriceBucket_spec
        (Some (exampleCollection
           [(exampleStore ''1'' ''Acme'')\<lparr>priceRange := Some ''$$$''\<rparr>,
            (exampleStore ''2'' ''Blank'')\<lparr>priceRange := Some ''''\<rparr>,
            (exampleStore ''3'' ''Cheap'')\<lparr>priceRange := Some ''free''\<rparr>] None))
        (Some exampleUser) (emptyFilters\<lparr>f_priceRanges := [''high'']\<rparr>) False
     = Inr [(exampleStore ''1'' ''Acme'')\<lparr>priceRange := Some ''$$$''\<rparr>] \<and>
   (exampleStore ''2'' ''Blank'')\<lparr>priceRange := Some ''''\<rparr>
     \<notin> set [(exampleStore ''1'' ''Acme'')\<lparr>priceRange := Some ''$$$''\<rparr>] \<and>
   (exampleStore ''3'' ''Cheap'')\<lparr>priceRange := Some ''free''\<rparr>
     \<notin> set [(exampleStore ''1'' ''Acme'')\<lparr>priceRange := Some ''$$$''\<rparr>] \<and>
   f_priceRanges emptyFilters = [] \<and>
   matchesPrice getPriceBucket_spec (f_priceRanges emptyFilters)
     ((exampleStore ''3'' ''Cheap'')\<lparr>priceRange := Some ''free''\<rparr>)"
proof -
  let ?f = "emptyFilters\<lparr>f_priceRanges := [''high'']\<rparr>"
  let ?acme = "(exampleStore ''1'' ''Acme'')\<lparr>priceRange := Some ''$$$''\<rparr>"
  let ?blank = "(exampleStore ''2'' ''Blank'')\<lparr>priceRange := Some ''''\<rparr>"
  let ?cheap = "(exampleStore ''3'' ''Cheap'')\<lparr>priceRange := Some ''free''\<rparr>"
  let ?ac = "Some (exampleCollection [?acme, ?blank, ?cheap] None)"
  have h: "f_priceRanges ?f \<noteq> []" "\<not> truthy (priceRange ?blank)"
      "getPriceBucket_spec (the (priceRange ?cheap)) = None" "f_priceRanges emptyFilters = []"
    by code_simp+
  have run: "filteredStores (\<lambda>k. k) compareStoreNames_spec getPriceBucket_spec ?ac
        (Some exampleUser) ?f False = Inr [?acme]"
    by code_simp
  from price_facet [where f = ?f and t = "\<lambda>k. k" and cmp = compareStoreNames_spec
      and gpb = getPriceBucket_spec and ac = ?ac and usr = "Some exampleUser" and sa = False
      and s = ?blank] h run
  have 1: "?blank \<notin> set [?acme]" by blast
  from price_facet [where f = ?f and t = "\<lambda>k. k" and cmp = compareStoreNames_spec
      and gpb = getPriceBucket_spec and ac = ?ac and usr = "Some exampleUser" and sa = False
      and s = ?cheap] h run
  have 2: "?cheap \<notin> set [?acme]" by blast
  from price_facet [where f = emptyFilters and t = "\<lambda>k. k" and cmp = compareStoreNames_spec
      and gpb = getPriceBucket_spec and ac = ?ac and usr = "Some exampleUser" and sa = False
      and s = ?cheap] h
  have 3: "matchesPrice getPriceBucket_spec (f_priceRanges emptyFilters) ?cheap" by blast
  from h run 1 2 3 show ?thesis by blast
qed

text \<open>
  Claim C5, as stated, fails for the price facet: an empty \<^verbatim>\<open>priceRanges\<close> excludes no
  store, so adding the first bucket can remove stores. A collection with one store of the
  bucket low has one result under no price facet and none under \<^verbatim>\<open>["high"]\<close>.
\<close>

theorem price_monotone_counterexample:
  "filteredStores (\<lambda>k. k) compareStoreNames_spec getPriceBucket_spec
      (Some (exampleCollection [(exampleStore ''1'' ''Acme'')\<lparr>priceRange := Some ''low''\<rparr>] None))
      (Some exampleUser) emptyFilters False
     = Inr [(exampleStore ''1'' ''Acme'')\<lparr>priceRange := Some ''low''\<rparr>] \<and>
   filteredStores (\<lambda>k. k) compareStoreNames_spec getPriceBucket_spec
      (Some (exampleCollection [(exampleStore ''1'' ''Acme'')\<lparr>priceRange := Some ''low''\<rparr>] None))
      (Some exampleUser) (emptyFilters\<lparr>f_priceRanges := f_priceRanges emptyFilters @ [''high'']\<rparr>) False
     = Inr []"
  by code_simp

text \<open>
  Claim C5, amended. Results are compared as multisets, which gives both the inclusion
  of the result sets and the comparison of their sizes. Replacing \<^verbatim>\<open>filter.tags\<close> by a
  list that holds all its tags and more never adds a store to the result. Replacing a
  non-empty \<^verbatim>\<open>filter.priceRanges\<close> by a list that holds all its buckets and more never
  removes a store from the result. Starting from an empty \<^verbatim>\<open>filter.priceRanges\<close>, any
  choice of buckets never adds a store. In each case the two filters return a list
  together or throw together. The filter returns a list
  whenever no field of \<^verbatim>\<open>filter.customFields\<close> with a non-empty option list is named like
  a member of \<^verbatim>\<open>Object.prototype\<close>.
\<close>

theorem filter_monotone:
  "(set (f_tags f) \<subseteq> set ts \<longrightarrow>
      (\<forall>rs'. filteredStores t cmp gpb ac usr (f\<lparr>f_tags := ts\<rparr>) sa = Inr rs' \<longrightarrow>
         (\<exists>rs. filteredStores t cmp gpb ac usr f sa = Inr rs \<and> mset rs' \<subseteq># mset rs)) \<and>
      (\<forall>e. filteredStores t cmp gpb ac usr (f\<lparr>f_tags := ts\<rparr>) sa = Inl e \<longrightarrow>
         filteredStores t cmp gpb ac usr f sa = Inl e)) \<and>
   (f_priceRanges f \<noteq> [] \<and> set (f_priceRanges f) \<subseteq> set ps \<longrightarrow>
      (\<forall>rs. filteredStores t cmp gpb ac usr f sa = Inr rs \<longrightarrow>
         (\<exists>rs'. filteredStores t cmp gpb ac usr (f\<lparr>f_priceRanges := ps\<rparr>) sa = Inr rs' \<and>
                mset rs \<subseteq># mset rs')) \<and>
      (\<forall>e. filteredStores t cmp gpb ac usr f sa = Inl e \<longrightarrow>
         filteredStores t cmp gpb ac usr (f\<lparr>f_priceRanges := ps\<rparr>) sa = Inl e)) \<and>
   (f_priceRanges f = [] \<longrightarrow>
      (\<forall>rs'. filteredStores t cmp gpb ac usr (f\<lparr>f_priceRanges := ps\<rparr>) sa = Inr rs' \<longrightarrow>
         (\<exists>rs. filteredStores t cmp gpb ac usr f sa = Inr rs \<and> mset rs' \<subseteq># mset rs)) \<and>
      (\<forall>e. filteredStores t cmp gpb ac usr (f\<lparr>f_priceRanges := ps\<rparr>) sa = Inl e \<longrightarrow>
         filteredStores t cmp gpb ac usr f sa = Inl e)) \<and>
   ((\<forall>(field, options) \<in> set (f_customFields f).
        options = [] \<or> field \<notin> set objectPrototypeNames)
      \<longrightarrow> (\<exists>rs. filteredStores t cmp gpb ac usr f sa = Inr rs))"
proof -
  have 1: "(\<forall>rs'. filteredStores t cmp gpb ac usr (f\<lparr>f_tags := ts\<rparr>) sa = Inr rs' \<longrightarrow>
         (\<exists>rs. filteredStores t cmp gpb ac usr f sa = Inr rs \<and> mset rs' \<subseteq># mset rs)) \<and>
      (\<forall>e. filteredStores t cmp gpb ac usr (f\<lparr>f_tags := ts\<rparr>) sa = Inl e \<longrightarrow>
         filteredStores t cmp gpb ac usr f sa = Inl e)" if "set (f_tags f) \<subseteq> set ts"
    using that by (intro filteredStores_mono)
      (auto simp: matchesFilters_Inr matchesTags_def list_all_iff)
  have 2: "(\<forall>rs. filteredStores t cmp gpb ac usr f sa = Inr rs \<longrightarrow>
         (\<exists>rs'. filteredStores t cmp gpb ac usr (f\<lparr>f_priceRanges := ps\<rparr>) sa = Inr rs' \<and>
                mset rs \<subseteq># mset rs')) \<and>
      (\<forall>e. filteredStores t cmp gpb ac usr f sa = Inl e \<longrightarrow>
         filteredStores t cmp gpb ac usr (f\<lparr>f_priceRanges := ps\<rparr>) sa = Inl e)"
    if "f_priceRanges f \<noteq> []" "set (f_priceRanges f) \<subseteq> set ps"
    using that by (intro filteredStores_mono)
      (auto simp: matchesFilters_Inr matchesPrice_def split: option.splits)
  have 3: "(\<forall>rs'. filteredStores t cmp gpb ac usr (f\<lparr>f_priceRanges := ps\<rparr>) sa = Inr rs' \<longrightarrow>
         (\<exists>rs. filteredStores t cmp gpb ac usr f sa = Inr rs \<and> mset rs' \<subseteq># mset rs)) \<and>
      (\<forall>e. filteredStores t cmp gpb ac usr (f\<lparr>f_priceRanges := ps\<rparr>) sa = Inl e \<longrightarrow>
         filteredStores t cmp gpb ac usr f sa = Inl e)" if "f_priceRanges f = []"
    using that by (intro filteredStores_mono)
      (auto simp: matchesFilters_Inr matchesPrice_def)
  have 4: "(\<forall>(field, options) \<in> set (f_customFields f).
        options = [] \<or> field \<notin> set objectPrototypeNames)
      \<longrightarrow> (\<exists>rs. filteredStores t cmp gpb ac usr f sa = Inr rs)"
    using filteredStores_returns by blast
  from 1 2 3 4 show ?thesis by blast
qed

text \<open>
  Claim C5, amended, at concrete filters: the scenario of the specification (store Zed
  tagged vegan, searched as zed, with the tags vegan and then vegan and sale), and the
  price facet growing from \<^verbatim>\<open>[]\<close> to \<^verbatim>\<open>["high"]\<close> to \<^verbatim>\<open>["high", "low"]\<close>.
\<close>

theorem filter_monotone_witness:
  "set (f_tags (emptyFilters\<lparr>f_search := ''zed'', f_tags := [''vegan'']\<rparr>)) \<subseteq> set [''vegan'', ''sale''] \<and>
   filteredStores (\<lambda>k. k) compareStoreNames_spec getPriceBucket_spec
          (Some (exampleCollection [(exampleStore ''1'' ''Zed'')\<lparr>tags := [''vegan'']\<rparr>] None))
          (Some exampleUser)
          (emptyFilters\<lparr>f_search := ''zed'', f_tags := [''vegan'', ''sale'']\<rparr>) False = Inr [] \<and>
   filteredStores (\<lambda>k. k) compareStoreNames_spec getPriceBucket_spec
          (Some (exampleCollection [(exampleStore ''1'' ''Zed'')\<lparr>tags := [''vegan'']\<rparr>] None))
          (Some exampleUser)
          (emptyFilters\<lparr>f_search := ''zed'', f_tags := [''vegan'']\<rparr>) False
     = Inr [(exampleStore ''1'' ''Zed'')\<lparr>tags := [''vegan'']\<rparr>] \<and>
   mset ([] :: store list) \<subseteq># mset [(exampleStore ''1'' ''Zed'')\<lparr>tags := [''vegan'']\<rparr>] \<and>
   f_priceRanges (emptyFilters\<lparr>f_priceRanges := [''high'']\<rparr>) \<noteq> [] \<and>
   set (f_priceRanges (emptyFilters\<lparr>f_priceRanges := [''high'']\<rparr>)) \<subseteq> set [''high'', ''low''] \<and>
   filteredStores (\<lambda>k. k) compareStoreNames_spec getPriceBucket_spec
          (Some (exampleCollection
             [(exampleStore ''2'' ''Zed'')\<lparr>priceRange := Some ''low''\<rparr>,
              (exampleStore ''1'' ''Acme'')\<lparr>priceRange := Some ''high''\<rparr>] None))
          (Some exampleUser) (emptyFilters\<lparr>f_priceRanges := [''high'']\<rparr>) False
     = Inr [(exampleStore ''1'' ''Acme'')\<lparr>priceRange := Some ''high''\<rparr>] \<and>
   filteredStores (\<lambda>k. k) compareStoreNames_spec getPriceBucket_spec
          (Some (exampleCollection
             [(exampleStore ''2'' ''Zed'')\<lparr>priceRange := Some ''low''\<rparr>,
              (exampleStore ''1'' ''Acme'')\<lparr>priceRange := Some ''high''\<rparr>] None))
          (Some exampleUser) (emptyFilters\<lparr>f_priceRanges := [''high'', ''low'']\<rparr>) False
     = Inr [(exampleStore ''1'' ''Acme'')\<lparr>priceRange := Some ''high''\<rparr>,
            (exampleStore ''2'' ''Zed'')\<lparr>priceRange := Some ''low''\<rparr>] \<and>
   mset [(exampleStore ''1'' ''Acme'')\<lparr>priceRange := Some ''high''\<rparr>]
     \<subseteq># mset [(exampleStore ''1'' ''Acme'')\<lparr>priceRange := Some ''high''\<rparr>,
               (exampleStore ''2'' ''Zed'')\<lparr>priceRange := Some ''low''\<rparr>] \<and>
   f_priceRanges emptyFilters = [] \<and>
   filteredStores (\<lambda>k. k) compareStoreNames_spec getPriceBucket_spec
          (Some (exampleCollection
             [(exampleStore ''2'' ''Zed'')\<lparr>priceRange := Some ''low''\<rparr>,
              (exampleStore ''1'' ''Acme'')\<lparr>priceRange := Some ''high''\<rparr>] None))
          (Some exampleUser) emptyFilters False
     = Inr [(exampleStore ''1'' ''Acme'')\<lparr>priceRange := Some ''high''\<rparr>,
            (exampleStore ''2'' ''Zed'')\<lparr>priceRange := Some ''low''\<rparr>]"
proof -
  let ?zed = "(exampleStore ''1'' ''Zed'')\<lparr>tags := [''vegan'']\<rparr>"
  let ?acme = "(exampleStore ''1'' ''Acme'')\<lparr>priceRange := Some ''high''\<rparr>"
  let ?zed2 = "(exampleStore ''2'' ''Zed'')\<lparr>priceRange := Some ''low''\<rparr>"
  let ?ft = "emptyFilters\<lparr>f_search := ''zed'', f_tags := [''vegan'']\<rparr>"
  let ?ft' = "emptyFilters\<lparr>f_search := ''zed'', f_tags := [''vegan'', ''sale'']\<rparr>"
  let ?fp = "emptyFilters\<lparr>f_priceRanges := [''high'']\<rparr>"
  let ?fp' = "emptyFilters\<lparr>f_priceRanges := [''high'', ''low'']\<rparr>"
  let ?ac1 = "Some (exampleCollection [?zed] None)"
  let ?ac = "Some (exampleCollection [?zed2, ?acme] None)"
  let ?F = "filteredStores (\<lambda>k. k) compareStoreNames_spec getPriceBucket_spec"
  have h: "set (f_tags ?ft) \<subseteq> set [''vegan'', ''sale'']" "f_priceRanges ?fp \<noteq> []"
      "set (f_priceRanges ?fp) \<subseteq> set [''high'', ''low'']" "f_priceRanges emptyFilters = []"
    by (simp_all add: emptyFilters_def)
  have upd: "?ft\<lparr>f_tags := [''vegan'', ''sale'']\<rparr> = ?ft'"
      "?fp\<lparr>f_priceRanges := [''high'', ''low'']\<rparr> = ?fp'"
      "emptyFilters\<lparr>f_priceRanges := [''high'', ''low'']\<rparr> = ?fp'"
    by simp_all
  have run: "?F ?ac1 (Some exampleUser) ?ft' False = Inr []"
      "?F ?ac (Some exampleUser) ?fp False = Inr [?acme]"
      "?F ?ac (Some exampleUser) ?fp' False = Inr [?acme, ?zed2]"
    by code_simp+
  note m1 = filter_monotone [where f = ?ft and ts = "[''vegan'', ''sale'']" and t = "\<lambda>k. k"
      and cmp = compareStoreNames_spec and gpb = getPriceBucket_spec and ps = "[]"
      and ac = ?ac1 and usr = "Some exampleUser" and sa = False]
  note m2 = filter_monotone [where f = ?fp and ps = "[''high'', ''low'']" and t = "\<lambda>k. k"
      and cmp = compareStoreNames_spec and gpb = getPriceBucket_spec and ts = "[]"
      and ac = ?ac and usr = "Some exampleUser" and sa = False]
  note m3 = filter_monotone [where f = emptyFilters and ps = "[''high'', ''low'']" and t = "\<lambda>k. k"
      and cmp = compareStoreNames_spec and gpb = getPriceBucket_spec and ts = "[]"
      and ac = ?ac and usr = "Some exampleUser" and sa = False]
  have "\<forall>rs'. ?F ?ac1 (Some exampleUser) (?ft\<lparr>f_tags := [''vegan'', ''sale'']\<rparr>) False = Inr rs' \<longrightarrow>
      (\<exists>rs. ?F ?ac1 (Some exampleUser) ?ft False = Inr rs \<and> mset rs' \<subseteq># mset rs)"
    using m1 h(1) by blast
  then obtain rs where 1: "?F ?ac1 (Some exampleUser) ?ft False = Inr rs"
    using run(1) upd(1) by auto
  have rs: "?F ?ac1 (Some exampleUser) ?ft False = Inr [?zed]"
    by code_simp
  have "\<forall>rs. ?F ?ac (Some exampleUser) ?fp False = Inr rs \<longrightarrow>
      (\<exists>rs'. ?F ?ac (Some exampleUser) (?fp\<lparr>f_priceRanges := [''high'', ''low'']\<rparr>) False = Inr rs' \<and>
             mset rs \<subseteq># mset rs')"
    using m2 h(2,3) by blast
  then have 2: "mset [?acme] \<subseteq># mset [?acme, ?zed2]"
    using run(2,3) upd(2) by auto
  have "\<forall>rs'. ?F ?ac (Some exampleUser) (emptyFilters\<lparr>f_priceRanges := [''high'', ''low'']\<rparr>) False
        = Inr rs' \<longrightarrow>
      (\<exists>rs. ?F ?ac (Some exampleUser) emptyFilters False = Inr rs \<and> mset rs' \<subseteq># mset rs)"
    using m3 h(4) by blast
  then obtain rs0 where 3: "?F ?ac (Some exampleUser) emptyFilters False = Inr rs0"
    using run(3) upd(3) by auto
  have rs0: "?F ?ac (Some exampleUser) emptyFilters False = Inr [?acme, ?zed2]"
    by code_simp
  have incl: "mset ([] :: store list) \<subseteq># mset [?zed]" by simp
  from h run rs rs0 incl 2 show ?thesis by simp
qed

text \<open>
  Claim C6. Every store of the result has an archive flag that, read as a boolean
  (\<^verbatim>\<open>!!store.isArchived\<close>, an unset flag reading as false), equals the archived-view
  flag; the archived view and the active view of the same collection have no store in
  common, whatever the two filter states. The filter returns a list
  whenever no field of \<^verbatim>\<open>filter.customFields\<close> with a non-empty option list is named like
  a member of \<^verbatim>\<open>Object.prototype\<close>.
\<close>

theorem archive_views:
  "(\<forall>rs. filteredStores t cmp gpb ac usr f sa = Inr rs \<longrightarrow>
      (\<forall>s \<in> set rs. truthy_bool (isArchived s) = sa)) \<and>
   (\<forall>rs1 rs2. filteredStores t cmp gpb ac usr f True = Inr rs1 \<and>
              filteredStores t cmp gpb ac usr g False = Inr rs2
      \<longrightarrow> set rs1 \<inter> set rs2 = {}) \<and>
   ((\<forall>(field, options) \<in> set (f_customFields f).
        options = [] \<or> field \<notin> set objectPrototypeNames)
      \<longrightarrow> (\<exists>rs. filteredStores t cmp gpb ac usr f sa = Inr rs))"
proof -
  have 1: "\<forall>rs. filteredStores t cmp gpb ac usr f sa = Inr rs \<longrightarrow>
      (\<forall>s \<in> set rs. truthy_bool (isArchived s) = sa)"
    by (auto simp: in_filteredStores matchesFilters_Inr matchesArchive_def split: if_splits)
  have 2: "\<forall>rs1 rs2. filteredStores t cmp gpb ac usr f True = Inr rs1 \<and>
              filteredStores t cmp gpb ac usr g False = Inr rs2
      \<longrightarrow> set rs1 \<inter> set rs2 = {}"
    by (auto simp: in_filteredStores matchesFilters_Inr matchesArchive_def split: if_splits)
  have 3: "(\<forall>(field, options) \<in> set (f_customFields f).
        options = [] \<or> field \<notin> set objectPrototypeNames)
      \<longrightarrow> (\<exists>rs. filteredStores t cmp gpb ac usr f sa = Inr rs)"
    using filteredStores_returns by blast
  from 1 2 3 show ?thesis by blast
qed

text \<open>
  Claim C6 at a collection with one active and one archived store.
\<close>

theorem archive_views_witness:
  "filteredStores (\<lambda>k. k) compareStoreNames_spec getPriceBucket_spec
      (Some (exampleCollection
         [exampleStore ''1'' ''Acme'', (exampleStore ''2'' ''Zed'')\<lparr>isArchived := Some True\<rparr>] None))
      (Some exampleUser) emptyFilters False = Inr [exampleStore ''1'' ''Acme''] \<and>
   filteredStores (\<lambda>k. k) compareStoreNames_spec getPriceBucket_spec
      (Some (exampleCollection
         [exampleStore ''1'' ''Acme'', (exampleStore ''2'' ''Zed'')\<lparr>isArchived := Some True\<rparr>] None))
      (Some exampleUser) emptyFilters True
     = Inr [(exampleStore ''2'' ''Zed'')\<lparr>isArchived := Some True\<rparr>] \<and>
   truthy_bool (isArchived (exampleStore ''1'' ''Acme'')) = False \<and>
   truthy_bool (isArchived ((exampleStore ''2'' ''Zed'')\<lparr>isArchived := Some True\<rparr>)) = True"
proof -
  let ?zed = "(exampleStore ''2'' ''Zed'')\<lparr>isArchived := Some True\<rparr>"
  let ?ac = "Some (exampleCollection [exampleStore ''1'' ''Acme'', ?zed] None)"
  let ?F = "filteredStores (\<lambda>k. k) compareStoreNames_spec getPriceBucket_spec ?ac
      (Some exampleUser) emptyFilters"
  have run: "?F False = Inr [exampleStore ''1'' ''Acme'']" "?F True = Inr [?zed]"
    by code_simp+
  from archive_views [where t = "\<lambda>k. k" and cmp = compareStoreNames_spec
      and gpb = getPriceBucket_spec and ac = ?ac and usr = "Some exampleUser"
      and f = emptyFilters and sa = False] run(1)
  have 1: "truthy_bool (isArchived (exampleStore ''1'' ''Acme'')) = False" by simp
  from archive_views [where t = "\<lambda>k. k" and cmp = compareStoreNames_spec
      and gpb = getPriceBucket_spec and ac = ?ac and usr = "Some exampleUser"
      and f = emptyFilters and sa = True] run(2)
  have 2: "truthy_bool (isArchived ?zed) = True" by simp
  from run 1 2 show ?thesis by blast
qed

text \<open>
  The custom-fields clause where it returns. It returns true exactly when, for every
  entry of \<^verbatim>\<open>filter.customFields\<close> with a non-empty option list, the store has values for
  that field and one of them is among the options; and it returns a boolean whenever no
  such entry reads an inherited member.
\<close>

lemma custom_fields_clause:
  "(matchesCustomFields cf s = Inr True \<longleftrightarrow>
      (\<forall>(field, options) \<in> set cf.
          options \<noteq> [] \<longrightarrow>
          (\<exists>vs. storeValues s field = Strings vs \<and> (\<exists>v \<in> set vs. v \<in> set options)))) \<and>
   ((\<forall>(field, options) \<in> set cf. options \<noteq> [] \<longrightarrow> storeValues s field \<noteq> Inherited)
      \<longrightarrow> (\<exists>b. matchesCustomFields cf s = Inr b))"
  using matchesCustomFields_True matchesCustomFields_returns by blast

text \<open>
  Claim C7 states the clause for every field name, and the code does not compute it for
  all of them. For an entry with a non-empty option list whose field is named like a
  member of \<^verbatim>\<open>Object.prototype\<close> and is not an own key of the store's custom fields, the
  clause throws a \<^verbatim>\<open>TypeError\<close> where claim C7 has the store fail the clause; the
  exception leaves the callback and the whole filter for every collection that holds
  such a store.
\<close>

theorem inherited_field_name_throws:
  "field \<in> set objectPrototypeNames \<and> map_of (customFields s) field = None \<and> options \<noteq> [] \<longrightarrow>
     matchesCustomFields ((field, options) # entries) s = Inl TypeError \<and>
     matchesFilters t gpb (f\<lparr>f_customFields := (field, options) # entries\<rparr>) sa s
       = Inl TypeError \<and>
     (s \<in> set (stores c) \<longrightarrow>
        filteredStores t cmp gpb (Some c) (Some u)
          (f\<lparr>f_customFields := (field, options) # entries\<rparr>) sa = Inl TypeError)"
proof (intro impI)
  assume h: "field \<in> set objectPrototypeNames \<and> map_of (customFields s) field = None \<and>
      options \<noteq> []"
  then have v: "storeValues s field = Inherited"
    by (simp add: storeValues_def)
  with h have 1: "matchesCustomFields ((field, options) # entries) s = Inl TypeError"
    by (simp add: someIncludes_def)
  then have 2: "matchesFilters t gpb (f\<lparr>f_customFields := (field, options) # entries\<rparr>) sa s
       = Inl TypeError"
    by (simp add: matchesFilters_Inl)
  have 3: "filteredStores t cmp gpb (Some c) (Some u)
          (f\<lparr>f_customFields := (field, options) # entries\<rparr>) sa = Inl TypeError"
    if "s \<in> set (stores c)"
  proof -
    have "\<exists>s \<in> set (stores c). \<exists>e'.
        matchesCustomFields (f_customFields (f\<lparr>f_customFields := (field, options) # entries\<rparr>)) s
          = Inl e'"
      using that 1 by (intro bexI [of _ s] exI [of _ TypeError]) simp_all
    then show ?thesis
      unfolding filteredStores_Inl by blast
  qed
  from 1 2 3 show "matchesCustomFields ((field, options) # entries) s = Inl TypeError \<and>
     matchesFilters t gpb (f\<lparr>f_customFields := (field, options) # entries\<rparr>) sa s
       = Inl TypeError \<and>
     (s \<in> set (stores c) \<longrightarrow>
        filteredStores t cmp gpb (Some c) (Some u)
          (f\<lparr>f_customFields := (field, options) # entries\<rparr>) sa = Inl TypeError)"
    by blast
qed

text \<open>
  The failing input of claim C7: the filter \<^verbatim>\<open>{constructor: ["x"]}\<close>, which the query
  string \<^verbatim>\<open>?cf_constructor=x\<close> produces, on a collection with one store.
\<close>

theorem inherited_field_name_throws_witness:
  "''constructor'' \<in> set objectPrototypeNames \<and>
   map_of (customFields (exampleStore ''1'' ''Acme'')) ''constructor'' = None \<and>
   exampleStore ''1'' ''Acme'' \<in> set (stores (exampleCollection [exampleStore ''1'' ''Acme''] None)) \<and>
   filteredStores (\<lambda>k. k) compareStoreNames_spec getPriceBucket_spec
      (Some (exampleCollection [exampleStore ''1'' ''Acme''] None)) (Some exampleUser)
      (emptyFilters\<lparr>f_customFields := [(''constructor'', [''x''])]\<rparr>) False = Inl TypeError"
proof -
  have h: "''constructor'' \<in> set objectPrototypeNames"
      "map_of (customFields (exampleStore ''1'' ''Acme'')) ''constructor'' = None"
      "exampleStore ''1'' ''Acme'' \<in> set (stores (exampleCollection [exampleStore ''1'' ''Acme''] None))"
    by code_simp+
  from inherited_field_name_throws [where field = "''constructor''" and options = "[''x'']"
      and s = "exampleStore ''1'' ''Acme''" and entries = "[]" and t = "\<lambda>k. k"
      and cmp = compareStoreNames_spec and gpb = getPriceBucket_spec and f = emptyFilters
      and sa = False and c = "exampleCollection [exampleStore ''1'' ''Acme''] None"
      and u = exampleUser] h
  show ?thesis by simp
qed

text \<open>
  Claim C8, as stated, fails: the sort is stable and compares names only, so two
  different stores with the same name come out in the order they went in, and two
  permutations of one store list give two different results.
\<close>

theorem same_name_counterexample:
  "filteredStores (\<lambda>k. k) compareStoreNames_spec getPriceBucket_spec
      (Some (exampleCollection [exampleStore ''1'' ''Acme'', exampleStore ''2'' ''Acme''] None))
      (Some exampleUser) emptyFilters False
     = Inr [exampleStore ''1'' ''Acme'', exampleStore ''2'' ''Acme''] \<and>
   filteredStores (\<lambda>k. k) compareStoreNames_spec getPriceBucket_spec
      (Some (exampleCollection [exampleStore ''2'' ''Acme'', exampleStore ''1'' ''Acme''] None))
      (Some exampleUser) emptyFilters False
     = Inr [exampleStore ''2'' ''Acme'', exampleStore ''1'' ''Acme''] \<and>
   filteredStores (\<lambda>k. k) compareStoreNames_spec getPriceBucket_spec
      (Some (exampleCollection [exampleStore ''1'' ''Acme'', exampleStore ''2'' ''Acme''] None))
      (Some exampleUser) emptyFilters False
     \<noteq> filteredStores (\<lambda>k. k) compareStoreNames_spec getPriceBucket_spec
      (Some (exampleCollection [exampleStore ''2'' ''Acme'', exampleStore ''1'' ''Acme''] None))
      (Some exampleUser) emptyFilters False"
  by code_simp

text \<open>
  Claim C8, amended. For a consistent comparison function (the sign of \<open>cmp a b\<close> is
  the opposite of the sign of \<open>cmp b a\<close>, and not-greater is transitive) the result is
  sorted by \<^verbatim>\<open>compareStoreNames\<close> on \<^verbatim>\<open>store_name\<close>; the stores of one name appear in the
  order of the input list; and two permutations of the same store list give the same
  outcome, the same ordered result or the same exception, whenever no two different
  matching stores have names that compare equal. Names that differ only by case are
  therefore ordered the same way for every input order as soon as
  \<^verbatim>\<open>compareStoreNames\<close> separates them, as the comparison of the specification does.
  The filter returns a list
  whenever no field of \<^verbatim>\<open>filter.customFields\<close> with a non-empty option list is named like
  a member of \<^verbatim>\<open>Object.prototype\<close>.
\<close>

theorem filteredStores_order:
  assumes sym: "\<forall>a b. (cmp a b < 0) = (0 < cmp b a)"
      and trans: "\<forall>a b c. cmp a b \<le> 0 \<longrightarrow> cmp b c \<le> 0 \<longrightarrow> cmp a c \<le> 0"
  shows "(\<forall>rs. filteredStores t cmp gpb ac usr f sa = Inr rs \<longrightarrow>
            sorted_wrt (\<lambda>a b. cmp (store_name a) (store_name b) \<le> 0) rs) \<and>
         (\<forall>rs. filteredStores t cmp gpb (Some c) (Some u) f sa = Inr rs \<longrightarrow>
            filter (\<lambda>s. store_name s = n) rs =
              filter (\<lambda>s. store_name s = n)
                (filter (\<lambda>s. matchesFilters t gpb f sa s = Inr True) (stores c))) \<and>
         (mset (stores c) = mset (stores c') \<and>
          (\<forall>a \<in> set (stores c). \<forall>b \<in> set (stores c).
              matchesFilters t gpb f sa a = Inr True \<and> matchesFilters t gpb f sa b = Inr True \<and>
              cmp (store_name a) (store_name b) = 0 \<longrightarrow> a = b)
          \<longrightarrow> filteredStores t cmp gpb (Some c) (Some u) f sa =
              filteredStores t cmp gpb (Some (c\<lparr>stores := stores c'\<rparr>)) (Some u) f sa) \<and>
         ((\<forall>(field, options) \<in> set (f_customFields f).
              options = [] \<or> field \<notin> set objectPrototypeNames)
          \<longrightarrow> (\<exists>rs. filteredStores t cmp gpb ac usr f sa = Inr rs))"
proof -
  let ?cmp = "\<lambda>a b. cmp (store_name a) (store_name b)"
  let ?R = "\<lambda>a b. ?cmp a b \<le> 0"
  let ?ok = "\<lambda>s. matchesFilters t gpb f sa s = Inr True"
  have total: "?cmp a b \<le> 0 \<or> ?cmp b a \<le> 0" for a b
    using sym [rule_format, of "store_name a" "store_name b"] by linarith
  have trans': "?cmp a b \<le> 0 \<Longrightarrow> ?cmp b d \<le> 0 \<Longrightarrow> ?cmp a d \<le> 0" for a b d
    using trans by blast
  have srt: "sorted_wrt ?R (array_sort ?cmp xs)" for xs
    using sorted_array_sort [of ?cmp xs] total trans' by blast
  have 1: "\<forall>rs. filteredStores t cmp gpb ac usr f sa = Inr rs \<longrightarrow> sorted_wrt ?R rs"
    by (cases ac; cases usr) (auto simp: filteredStores_None filteredStores_Inr srt)
  have refl: "cmp a a \<le> 0" for a
    using sym [rule_format, of a a] by linarith
  then have same: "store_name a = store_name b \<Longrightarrow> ?cmp a b \<le> 0" for a b
    by simp
  have stable: "filter (\<lambda>s. store_name s = n) (array_sort ?cmp xs) =
      filter (\<lambda>s. store_name s = n) xs" for xs
    by (rule array_sort_stable [of store_name ?cmp]) (rule same)
  have 2: "\<forall>rs. filteredStores t cmp gpb (Some c) (Some u) f sa = Inr rs \<longrightarrow>
            filter (\<lambda>s. store_name s = n) rs =
              filter (\<lambda>s. store_name s = n) (filter ?ok (stores c))"
    by (simp add: filteredStores_Inr stable)
  have 3: "filteredStores t cmp gpb (Some c) (Some u) f sa =
           filteredStores t cmp gpb (Some (c\<lparr>stores := stores c'\<rparr>)) (Some u) f sa"
    if perm: "mset (stores c) = mset (stores c')"
      and sep: "\<forall>a \<in> set (stores c). \<forall>b \<in> set (stores c).
              ?ok a \<and> ?ok b \<and> cmp (store_name a) (store_name b) = 0 \<longrightarrow> a = b"
  proof (cases "filteredStores t cmp gpb (Some c) (Some u) f sa")
    case (Inl e)
    have sets: "set (stores c) = set (stores c')"
      using perm by (metis set_mset_mset)
    from Inl have "filteredStores t cmp gpb (Some (c\<lparr>stores := stores c'\<rparr>)) (Some u) f sa = Inl e"
      by (simp add: filteredStores_Inl sets)
    with Inl show ?thesis by simp
  next
    case (Inr rs)
    have sets: "set (stores c) = set (stores c')"
      using perm by (metis set_mset_mset)
    from Inr have all: "\<forall>s \<in> set (stores c). \<exists>b. matchesFilters t gpb f sa s = Inr b"
      and rs: "rs = array_sort ?cmp (filter ?ok (stores c))"
      by (simp_all add: filteredStores_Inr)
    let ?rs' = "array_sort ?cmp (filter ?ok (stores c'))"
    have r': "filteredStores t cmp gpb (Some (c\<lparr>stores := stores c'\<rparr>)) (Some u) f sa = Inr ?rs'"
      using all sets by (simp add: filteredStores_Inr)
    have "rs = ?rs'"
    proof (rule sorted_wrt_mset_unique [of ?R])
      show "sorted_wrt ?R rs" unfolding rs by (rule srt)
      show "sorted_wrt ?R ?rs'" by (rule srt)
      show "mset rs = mset ?rs'"
        unfolding rs using perm by (simp add: mset_array_sort)
    next
      fix a b
      assume a: "a \<in> set rs" and b: "b \<in> set rs" and ab: "?R a b" and ba: "?R b a"
      have "?cmp a b = 0"
        using ab ba sym [rule_format, of "store_name a" "store_name b"] by linarith
      with a b sep show "a = b"
        unfolding rs by (auto simp: set_array_sort)
    qed
    with Inr r' show ?thesis by simp
  qed
  have 4: "(\<forall>(field, options) \<in> set (f_customFields f).
              options = [] \<or> field \<notin> set objectPrototypeNames)
          \<longrightarrow> (\<exists>rs. filteredStores t cmp gpb ac usr f sa = Inr rs)"
    using filteredStores_returns by blast
  from 1 2 3 4 show ?thesis by blast
qed

text \<open>
  Claim C8, amended, with the comparison of the specification: the stores Acme and acme
  come out as Acme, acme for both input orders.
\<close>

theorem filteredStores_order_witness:
  "filteredStores (\<lambda>k. k) compareStoreNames_spec getPriceBucket_spec
      (Some (exampleCollection [exampleStore ''2'' ''acme'', exampleStore ''1'' ''Acme''] None))
      (Some exampleUser) emptyFilters False
     = Inr [exampleStore ''1'' ''Acme'', exampleStore ''2'' ''acme''] \<and>
   filteredStores (\<lambda>k. k) compareStoreNames_spec getPriceBucket_spec
      (Some (exampleCollection [exampleStore ''1'' ''Acme'', exampleStore ''2'' ''acme''] None))
      (Some exampleUser) emptyFilters False
     = Inr [exampleStore ''1'' ''Acme'', exampleStore ''2'' ''acme''] \<and>
   sorted_wrt (\<lambda>a b. compareStoreNames_spec (store_name a) (store_name b) \<le> 0)
     [exampleStore ''1'' ''Acme'', exampleStore ''2'' ''acme'']"
proof -
  let ?a = "exampleStore ''1'' ''Acme''" and ?b = "exampleStore ''2'' ''acme''"
  let ?c = "exampleCollection [?b, ?a] None" and ?c' = "exampleCollection [?a, ?b] None"
  let ?F = "\<lambda>c. filteredStores (\<lambda>k. k) compareStoreNames_spec getPriceBucket_spec
      (Some c) (Some exampleUser) emptyFilters False"
  have perm: "mset (stores ?c) = mset (stores ?c')"
    by (simp add: exampleCollection_def)
  have sep: "\<forall>a \<in> set (stores ?c). \<forall>b \<in> set (stores ?c).
      matchesFilters (\<lambda>k. k) getPriceBucket_spec emptyFilters False a = Inr True \<and>
      matchesFilters (\<lambda>k. k) getPriceBucket_spec emptyFilters False b = Inr True \<and>
      compareStoreNames_spec (store_name a) (store_name b) = 0 \<longrightarrow> a = b"
    by (simp add: exampleCollection_def cmp_spec_zero exampleStore_def)
  have upd: "?c\<lparr>stores := stores ?c'\<rparr> = ?c'"
    by (simp add: exampleCollection_def)
  have run: "?F ?c' = Inr [?a, ?b]"
    by code_simp
  have sym: "\<forall>a b. (compareStoreNames_spec a b < 0) = (0 < compareStoreNames_spec b a)"
    by (simp add: cmp_spec_sym)
  have trans: "\<forall>a b c. compareStoreNames_spec a b \<le> 0 \<longrightarrow>
      compareStoreNames_spec b c \<le> 0 \<longrightarrow> compareStoreNames_spec a c \<le> 0"
    using cmp_spec_trans by blast
  note inst = filteredStores_order [where cmp = compareStoreNames_spec and t = "\<lambda>k. k"
      and gpb = getPriceBucket_spec and ac = "Some ?c'" and usr = "Some exampleUser"
      and f = emptyFilters and sa = False and c = ?c and c' = ?c' and u = exampleUser,
      OF sym trans]
  from inst perm sep have "?F ?c = ?F (?c\<lparr>stores := stores ?c'\<rparr>)" by blast
  then have 1: "?F ?c = Inr [?a, ?b]" using upd run by simp
  from inst run have 2: "sorted_wrt (\<lambda>a b. compareStoreNames_spec (store_name a) (store_name b) \<le> 0)
     [?a, ?b]" by blast
  from 1 2 run show ?thesis by blast
qed

end
